theory Spec2Isabelle
  imports Main "HOL-Library.Word"
begin

section \<open>Strings of the host language\<close>

text \<open>
  A JavaScript string is modelled as a \<^typ>\<open>string\<close>: one \<^typ>\<open>char\<close> per code unit,
  restricted to the code units below 256. Every character the modelled functions test for
  (the forbidden file-name characters, the underscore, the decimal digits, the white space
  that \<^verbatim>\<open>trim\<close> removes) lies in that range.
\<close>

definition isWhiteSpace :: "char \<Rightarrow> bool" where
  "isWhiteSpace c = (c \<in> {CHR 0x09, CHR 0x0A, CHR 0x0B, CHR 0x0C, CHR 0x0D, CHR 0x20, CHR 0xA0})"

definition trimStart :: "string \<Rightarrow> string" where
  "trimStart s = dropWhile isWhiteSpace s"

definition trimEnd :: "string \<Rightarrow> string" where
  "trimEnd s = rev (dropWhile isWhiteSpace (rev s))"

definition trim :: "string \<Rightarrow> string" where
  "trim s = trimEnd (trimStart s)"

text \<open>\<^verbatim>\<open>s.substring(0, n)\<close>\<close>

definition substring0 :: "nat \<Rightarrow> string \<Rightarrow> string" where
  "substring0 n s = take n s"

text \<open>\<^verbatim>\<open>s.padStart(n, c)\<close> for a one-character pad string.\<close>

definition padStart :: "nat \<Rightarrow> char \<Rightarrow> string \<Rightarrow> string" where
  "padStart n c s = replicate (n - length s) c @ s"

definition digit :: "nat \<Rightarrow> char" where
  "digit d = char_of (48 + d)"

text \<open>\<^verbatim>\<open>String(n)\<close> for a non-negative integer: its decimal digits.\<close>

fun String :: "nat \<Rightarrow> string" where
  "String n = (if n < 10 then [digit n] else String (n div 10) @ [digit (n mod 10)])"

declare String.simps [simp del]



section \<open>The relational store\<close>

text \<open>
  The schema of \<^verbatim>\<open>initializeDatabase\<close>. Integers of the store and numbers of the host
  language are unbounded here: the counter is a \<^typ>\<open>nat\<close> (the code only ever writes
  positive values into it), the other numeric columns are \<^typ>\<open>int\<close>.
\<close>

record ArticleRow =
  row_id :: string
  row_title :: string
  row_abstract :: string
  row_conclusion :: string
  row_year :: int
  row_date :: string
  row_dateAdded :: string
  row_journal :: string
  row_doi :: string
  row_language :: string
  row_numPages :: int
  row_researchQuestion :: string
  row_methodology :: string
  row_dataUsed :: string
  row_results :: string
  row_limitations :: string
  row_firstImp :: string
  row_notes :: string
  row_comment :: string
  row_rating :: int
  row_read :: int
  row_favorite :: int
  row_fileName :: string
  row_createdAt :: string
  row_updatedAt :: string

text \<open>The six classification tables and their junction tables, addressed by kind.\<close>

datatype kind = Author | Keyword | Subject | Tag | University | Company

type_synonym entity = "nat \<times> string"

type_synonym link = "string \<times> nat"

record SettingsRow =
  externalStoragePath :: "string option"
  useExternalStorage :: "int option"

record db =
  Article :: "ArticleRow list"
  Entity :: "kind \<Rightarrow> entity list"
  ArticleEntity :: "kind \<Rightarrow> link list"
  UserSettings :: "SettingsRow list"
  IdCounter :: "nat option"

datatype error =
  DuplicateArticle
  | ConstraintError
  | IOError
  | NotFound

section \<open>Statements and transactions\<close>

text \<open>
  A statement run against the store returns its result, or the error it throws, together
  with the store as it stands at that moment: a statement that throws in the middle of a
  sequence leaves the writes made so far in place. \<^verbatim>\<open>db.transaction(f)()\<close> runs
  \<^verbatim>\<open>f\<close> and, when it throws, rolls the store back to where the transaction began and
  rethrows.
\<close>

type_synonym ('s, 'a) action = "'s \<Rightarrow> (error + 'a) \<times> 's"

type_synonym 'a stmt = "(db, 'a) action"

definition andThen :: "('s, 'a) action \<Rightarrow> ('a \<Rightarrow> ('s, 'b) action) \<Rightarrow> ('s, 'b) action" where
  "andThen m f = (\<lambda>d. case m d of
      (Inl e, d') \<Rightarrow> (Inl e, d')
    | (Inr v, d') \<Rightarrow> f v d')"

definition returns :: "'a \<Rightarrow> ('s, 'a) action" where
  "returns v = (\<lambda>d. (Inr v, d))"

fun forEach :: "('a \<Rightarrow> ('s, unit) action) \<Rightarrow> 'a list \<Rightarrow> ('s, unit) action" where
  "forEach f [] = returns ()"
| "forEach f (x # xs) = andThen (f x) (\<lambda>_. forEach f xs)"

definition transaction :: "'a stmt \<Rightarrow> 'a stmt" where
  "transaction body = (\<lambda>d. case body d of
      (Inl e, _) \<Rightarrow> (Inl e, d)
    | (Inr v, d') \<Rightarrow> (Inr v, d'))"

section \<open>Entity resolver\<close>

text \<open>
  \<^verbatim>\<open>getOrCreateEntity\<close>: look the name up; when absent insert it. The new row id is one
  more than the largest id of the table (rows of these tables are never deleted, so this
  is what \<^verbatim>\<open>AUTOINCREMENT\<close> hands out).
\<close>

definition selectByName :: "entity list \<Rightarrow> string \<Rightarrow> entity option" where
  "selectByName rows name = find (\<lambda>e. snd e = name) rows"

definition lastInsertRowid :: "entity list \<Rightarrow> nat" where
  "lastInsertRowid rows = Suc (fold max (map fst rows) 0)"

definition getOrCreateEntity :: "kind \<Rightarrow> string \<Rightarrow> entity stmt" where
  "getOrCreateEntity tableName name = (\<lambda>d.
     case selectByName (Entity d tableName) name of
       Some entity \<Rightarrow> (Inr entity, d)
     | None \<Rightarrow>
         (let entity = (lastInsertRowid (Entity d tableName), name)
          in (Inr entity, d\<lparr>Entity := (Entity d)(tableName := Entity d tableName @ [entity])\<rparr>)))"

text \<open>
  \<^verbatim>\<open>linkArticleEntity\<close>: \<^verbatim>\<open>INSERT OR IGNORE\<close> into the junction table. A pair that is
  already there is ignored; foreign keys are enforced (\<^verbatim>\<open>foreign_keys = ON\<close>), so a new
  pair whose article or entity does not exist is a constraint error.
\<close>

definition linkArticleEntity :: "kind \<Rightarrow> string \<Rightarrow> nat \<Rightarrow> unit stmt" where
  "linkArticleEntity junctionTable articleId entityId = (\<lambda>d.
     if (articleId, entityId) \<in> set (ArticleEntity d junctionTable) then (Inr (), d)
     else if articleId \<notin> set (map row_id (Article d))
             \<or> entityId \<notin> set (map fst (Entity d junctionTable))
       then (Inl ConstraintError, d)
     else (Inr (), d\<lparr>ArticleEntity :=
             (ArticleEntity d)(junctionTable := ArticleEntity d junctionTable @ [(articleId, entityId)])\<rparr>))"

definition clearArticleRelations :: "kind \<Rightarrow> string \<Rightarrow> unit stmt" where
  "clearArticleRelations junctionTable articleId = (\<lambda>d.
     (Inr (), d\<lparr>ArticleEntity :=
        (ArticleEntity d)(junctionTable := filter (\<lambda>l. fst l \<noteq> articleId) (ArticleEntity d junctionTable))\<rparr>))"

text \<open>The loop body shared by create and update: resolve a name, link it.\<close>

definition resolveAndLink :: "kind \<Rightarrow> string \<Rightarrow> string \<Rightarrow> unit stmt" where
  "resolveAndLink k articleId name =
     andThen (getOrCreateEntity k name) (\<lambda>entity. linkArticleEntity k articleId (fst entity))"

section \<open>Identifier allocator\<close>

text \<open>
  \<^verbatim>\<open>getNextArticleId\<close>: one transaction that reads the counter row, writes the successor
  and returns the value read, padded to four digits. Without a counter row it inserts
  the row with 2 and returns 1.
\<close>

definition getAndIncrement :: "nat stmt" where
  "getAndIncrement = (\<lambda>d.
     case IdCounter d of
       None \<Rightarrow> (Inr 1, d\<lparr>IdCounter := Some 2\<rparr>)
     | Some currentId \<Rightarrow> (Inr currentId, d\<lparr>IdCounter := Some (currentId + 1)\<rparr>))"

definition getNextArticleId :: "string stmt" where
  "getNextArticleId =
     andThen (transaction getAndIncrement) (\<lambda>nextId. returns (padStart 4 (CHR ''0'') (String nextId)))"

section \<open>Article repository\<close>

text \<open>The article as \<^verbatim>\<open>getArticleWithRelations\<close> assembles it.\<close>

record Article =
  art_id :: string
  art_title :: string
  art_abstract :: string
  art_conclusion :: "string option"
  art_year :: int
  art_date :: string
  art_dateAdded :: string
  art_journal :: "string option"
  art_doi :: "string option"
  art_language :: "string option"
  art_numPages :: "int option"
  art_researchQuestion :: "string option"
  art_methodology :: "string option"
  art_dataUsed :: "string option"
  art_results :: "string option"
  art_limitations :: "string option"
  art_firstImp :: "string option"
  art_notes :: "string option"
  art_comment :: "string option"
  art_rating :: int
  art_read :: bool
  art_favorite :: bool
  art_fileName :: string
  art_createdAt :: "string option"
  art_updatedAt :: "string option"
  art_authors :: "entity list"
  art_keywords :: "entity list"
  art_subjects :: "entity list"
  art_tags :: "entity list"
  art_universities :: "entity list"
  art_companies :: "entity list"

text \<open>\<^verbatim>\<open>x || undefined\<close> on a text column.\<close>

definition orUndefined :: "string \<Rightarrow> string option" where
  "orUndefined s = (if s = [] then None else Some s)"

text \<open>The join of an entity table with its junction table, for one article.\<close>

definition selectEntities :: "db \<Rightarrow> kind \<Rightarrow> string \<Rightarrow> entity list" where
  "selectEntities d k articleId =
     [e. e \<leftarrow> Entity d k, l \<leftarrow> ArticleEntity d k, fst e = snd l \<and> fst l = articleId]"

definition getArticleWithRelations :: "db \<Rightarrow> string \<Rightarrow> Article option" where
  "getArticleWithRelations d articleId =
     (case find (\<lambda>r. row_id r = articleId) (Article d) of
        None \<Rightarrow> None
      | Some article \<Rightarrow> Some
          \<lparr> art_id = row_id article,
            art_title = row_title article,
            art_abstract = row_abstract article,
            art_conclusion = orUndefined (row_conclusion article),
            art_year = row_year article,
            art_date = row_date article,
            art_dateAdded = row_dateAdded article,
            art_journal = orUndefined (row_journal article),
            art_doi = orUndefined (row_doi article),
            art_language = orUndefined (row_language article),
            art_numPages = (if row_numPages article = 0 then None else Some (row_numPages article)),
            art_researchQuestion = orUndefined (row_researchQuestion article),
            art_methodology = orUndefined (row_methodology article),
            art_dataUsed = orUndefined (row_dataUsed article),
            art_results = orUndefined (row_results article),
            art_limitations = orUndefined (row_limitations article),
            art_firstImp = orUndefined (row_firstImp article),
            art_notes = orUndefined (row_notes article),
            art_comment = orUndefined (row_comment article),
            art_rating = row_rating article,
            art_read = (row_read article \<noteq> 0),
            art_favorite = (row_favorite article \<noteq> 0),
            art_fileName = row_fileName article,
            art_createdAt = orUndefined (row_createdAt article),
            art_updatedAt = orUndefined (row_updatedAt article),
            art_authors = selectEntities d Author articleId,
            art_keywords = selectEntities d Keyword articleId,
            art_subjects = selectEntities d Subject articleId,
            art_tags = selectEntities d Tag articleId,
            art_universities = selectEntities d University articleId,
            art_companies = selectEntities d Company articleId \<rparr>)"

text \<open>
  \<^verbatim>\<open>ArticleFormData\<close>, the payload of create (its \<^verbatim>\<open>pdfFile\<close> member is not read by
  the handlers), and \<^verbatim>\<open>Partial<ArticleFormData>\<close>, the payload of update, where an
  absent member is \<^const>\<open>None\<close>.
\<close>

record ArticleFormData =
  f_title :: string
  f_abstract :: string
  f_conclusion :: "string option"
  f_year :: int
  f_date :: string
  f_journal :: "string option"
  f_doi :: "string option"
  f_language :: string
  f_numPages :: int
  f_researchQuestion :: "string option"
  f_methodology :: "string option"
  f_dataUsed :: "string option"
  f_results :: "string option"
  f_limitations :: "string option"
  f_firstImp :: "string option"
  f_notes :: "string option"
  f_comment :: "string option"
  f_rating :: int
  f_read :: bool
  f_favorite :: bool
  f_authors :: "string list"
  f_keywords :: "string list"
  f_subjects :: "string list"
  f_tags :: "string list"
  f_universities :: "string list"
  f_companies :: "string list"

record PartialFormData =
  p_title :: "string option"
  p_abstract :: "string option"
  p_conclusion :: "string option"
  p_year :: "int option"
  p_date :: "string option"
  p_journal :: "string option"
  p_doi :: "string option"
  p_language :: "string option"
  p_numPages :: "int option"
  p_researchQuestion :: "string option"
  p_methodology :: "string option"
  p_dataUsed :: "string option"
  p_results :: "string option"
  p_limitations :: "string option"
  p_firstImp :: "string option"
  p_notes :: "string option"
  p_comment :: "string option"
  p_rating :: "int option"
  p_read :: "bool option"
  p_favorite :: "bool option"
  p_authors :: "string list option"
  p_keywords :: "string list option"
  p_subjects :: "string list option"
  p_tags :: "string list option"
  p_universities :: "string list option"
  p_companies :: "string list option"

text \<open>
  The duplicate query of create: the ids of the articles with the given title that are
  linked to an author whose name is in the given list; \<^verbatim>\<open>get\<close> takes the first row.
\<close>

definition duplicateCheck :: "db \<Rightarrow> string \<Rightarrow> string list \<Rightarrow> string option" where
  "duplicateCheck d title authors =
     (case [row_id a. a \<leftarrow> Article d, aa \<leftarrow> ArticleEntity d Author, au \<leftarrow> Entity d Author,
              row_id a = fst aa \<and> snd aa = fst au \<and> row_title a = title \<and> snd au \<in> set authors] of
        [] \<Rightarrow> None
      | x # _ \<Rightarrow> Some x)"

definition isAlnumOrSpace :: "char \<Rightarrow> bool" where
  "isAlnumOrSpace c = (let n = (of_char c :: nat) in
     (97 \<le> n \<and> n \<le> 122) \<or> (65 \<le> n \<and> n \<le> 90) \<or> (48 \<le> n \<and> n \<le> 57) \<or> n = 32)"

definition makeFileName :: "string \<Rightarrow> string \<Rightarrow> string" where
  "makeFileName nextId title = nextId @ '' - '' @ filter isAlnumOrSpace (substring0 50 title)"

text \<open>\<^verbatim>\<open>INSERT INTO Article\<close>: the id is the primary key.\<close>

definition insertArticle :: "ArticleRow \<Rightarrow> unit stmt" where
  "insertArticle r = (\<lambda>d.
     if row_id r \<in> set (map row_id (Article d)) then (Inl ConstraintError, d)
     else (Inr (), d\<lparr>Article := Article d @ [r]\<rparr>))"

text \<open>
  The body of the create transaction. \<^verbatim>\<open>today\<close> is the date the host clock gives,
  \<^verbatim>\<open>now\<close> the store's \<^verbatim>\<open>datetime('now')\<close>, the default of both timestamp columns.
\<close>

definition insertValues :: "string \<Rightarrow> string \<Rightarrow> string \<Rightarrow> string \<Rightarrow> ArticleFormData \<Rightarrow> ArticleRow" where
  "insertValues today now nextId fileName formData =
        \<lparr> row_id = nextId,
          row_title = f_title formData,
          row_abstract = f_abstract formData,
          row_conclusion = (case f_conclusion formData of None \<Rightarrow> [] | Some v \<Rightarrow> v),
          row_year = f_year formData,
          row_date = f_date formData,
          row_dateAdded = today,
          row_journal = (case f_journal formData of None \<Rightarrow> [] | Some v \<Rightarrow> v),
          row_doi = (case f_doi formData of None \<Rightarrow> [] | Some v \<Rightarrow> v),
          row_language = (if f_language formData = [] then ''English'' else f_language formData),
          row_numPages = f_numPages formData,
          row_researchQuestion = (case f_researchQuestion formData of None \<Rightarrow> [] | Some v \<Rightarrow> v),
          row_methodology = (case f_methodology formData of None \<Rightarrow> [] | Some v \<Rightarrow> v),
          row_dataUsed = (case f_dataUsed formData of None \<Rightarrow> [] | Some v \<Rightarrow> v),
          row_results = (case f_results formData of None \<Rightarrow> [] | Some v \<Rightarrow> v),
          row_limitations = (case f_limitations formData of None \<Rightarrow> [] | Some v \<Rightarrow> v),
          row_firstImp = (case f_firstImp formData of None \<Rightarrow> [] | Some v \<Rightarrow> v),
          row_notes = (case f_notes formData of None \<Rightarrow> [] | Some v \<Rightarrow> v),
          row_comment = (case f_comment formData of None \<Rightarrow> [] | Some v \<Rightarrow> v),
          row_rating = f_rating formData,
          row_read = (if f_read formData then 1 else 0),
          row_favorite = (if f_favorite formData then 1 else 0),
          row_fileName = fileName,
          row_createdAt = now,
          row_updatedAt = now \<rparr>"

definition createArticle :: "string \<Rightarrow> string \<Rightarrow> string \<Rightarrow> string \<Rightarrow> ArticleFormData \<Rightarrow> unit stmt" where
  "createArticle today now nextId fileName formData =
     andThen (insertArticle (insertValues today now nextId fileName formData))
       (\<lambda>_. andThen (forEach (resolveAndLink Author nextId) (f_authors formData))
       (\<lambda>_. andThen (forEach (resolveAndLink Keyword nextId) (f_keywords formData))
       (\<lambda>_. andThen (forEach (resolveAndLink Subject nextId) (f_subjects formData))
       (\<lambda>_. andThen (forEach (resolveAndLink Tag nextId) (f_tags formData))
       (\<lambda>_. andThen (forEach (resolveAndLink University nextId) (f_universities formData))
       (\<lambda>_. forEach (resolveAndLink Company nextId) (f_companies formData)))))))"

definition articles_create :: "string \<Rightarrow> string \<Rightarrow> ArticleFormData \<Rightarrow> Article option stmt" where
  "articles_create today now formData = (\<lambda>d.
     case duplicateCheck d (f_title formData) (f_authors formData) of
       Some _ \<Rightarrow> (Inl DuplicateArticle, d)
     | None \<Rightarrow>
         andThen getNextArticleId (\<lambda>nextId.
         andThen (transaction (createArticle today now nextId (makeFileName nextId (f_title formData)) formData))
           (\<lambda>_ d'. (Inr (getArticleWithRelations d' nextId), d'))) d)"

text \<open>The \<^verbatim>\<open>UPDATE Article SET ... WHERE id = ?\<close> that update builds from its payload.\<close>

definition updateRow :: "PartialFormData \<Rightarrow> string \<Rightarrow> ArticleRow \<Rightarrow> ArticleRow" where
  "updateRow formData now r = r
     \<lparr> row_title := (case p_title formData of None \<Rightarrow> row_title r | Some v \<Rightarrow> v),
       row_abstract := (case p_abstract formData of None \<Rightarrow> row_abstract r | Some v \<Rightarrow> v),
       row_conclusion := (case p_conclusion formData of None \<Rightarrow> row_conclusion r | Some v \<Rightarrow> v),
       row_year := (case p_year formData of None \<Rightarrow> row_year r | Some v \<Rightarrow> v),
       row_date := (case p_date formData of None \<Rightarrow> row_date r | Some v \<Rightarrow> v),
       row_journal := (case p_journal formData of None \<Rightarrow> row_journal r | Some v \<Rightarrow> v),
       row_doi := (case p_doi formData of None \<Rightarrow> row_doi r | Some v \<Rightarrow> v),
       row_language := (case p_language formData of None \<Rightarrow> row_language r | Some v \<Rightarrow> v),
       row_numPages := (case p_numPages formData of None \<Rightarrow> row_numPages r | Some v \<Rightarrow> v),
       row_researchQuestion := (case p_researchQuestion formData of None \<Rightarrow> row_researchQuestion r | Some v \<Rightarrow> v),
       row_methodology := (case p_methodology formData of None \<Rightarrow> row_methodology r | Some v \<Rightarrow> v),
       row_dataUsed := (case p_dataUsed formData of None \<Rightarrow> row_dataUsed r | Some v \<Rightarrow> v),
       row_results := (case p_results formData of None \<Rightarrow> row_results r | Some v \<Rightarrow> v),
       row_limitations := (case p_limitations formData of None \<Rightarrow> row_limitations r | Some v \<Rightarrow> v),
       row_firstImp := (case p_firstImp formData of None \<Rightarrow> row_firstImp r | Some v \<Rightarrow> v),
       row_notes := (case p_notes formData of None \<Rightarrow> row_notes r | Some v \<Rightarrow> v),
       row_comment := (case p_comment formData of None \<Rightarrow> row_comment r | Some v \<Rightarrow> v),
       row_rating := (case p_rating formData of None \<Rightarrow> row_rating r | Some v \<Rightarrow> v),
       row_read := (case p_read formData of None \<Rightarrow> row_read r | Some v \<Rightarrow> (if v then 1 else 0)),
       row_favorite := (case p_favorite formData of None \<Rightarrow> row_favorite r | Some v \<Rightarrow> (if v then 1 else 0)),
       row_updatedAt := now \<rparr>"

definition updateStmt :: "PartialFormData \<Rightarrow> string \<Rightarrow> string \<Rightarrow> unit stmt" where
  "updateStmt formData now articleId = (\<lambda>d.
     (Inr (), d\<lparr>Article := map (\<lambda>r. if row_id r = articleId then updateRow formData now r else r) (Article d)\<rparr>))"

definition replaceLinks :: "kind \<Rightarrow> string \<Rightarrow> string list option \<Rightarrow> unit stmt" where
  "replaceLinks k articleId names =
     (case names of
        None \<Rightarrow> returns ()
      | Some ns \<Rightarrow> andThen (clearArticleRelations k articleId) (\<lambda>_. forEach (resolveAndLink k articleId) ns))"

definition updateArticle :: "string \<Rightarrow> string \<Rightarrow> PartialFormData \<Rightarrow> unit stmt" where
  "updateArticle now articleId formData =
     andThen (updateStmt formData now articleId)
       (\<lambda>_. andThen (replaceLinks Author articleId (p_authors formData))
       (\<lambda>_. andThen (replaceLinks Keyword articleId (p_keywords formData))
       (\<lambda>_. andThen (replaceLinks Subject articleId (p_subjects formData))
       (\<lambda>_. andThen (replaceLinks Tag articleId (p_tags formData))
       (\<lambda>_. andThen (replaceLinks University articleId (p_universities formData))
       (\<lambda>_. replaceLinks Company articleId (p_companies formData)))))))"

definition articles_update :: "string \<Rightarrow> string \<Rightarrow> PartialFormData \<Rightarrow> Article option stmt" where
  "articles_update now articleId formData =
     andThen (transaction (updateArticle now articleId formData))
       (\<lambda>_ d'. (Inr (getArticleWithRelations d' articleId), d'))"

text \<open>\<^verbatim>\<open>DELETE FROM Article WHERE id = ?\<close>, with the cascade on the six junction tables.\<close>

definition deleteStmt :: "string \<Rightarrow> unit stmt" where
  "deleteStmt articleId = (\<lambda>d.
     (Inr (), d\<lparr>Article := filter (\<lambda>r. row_id r \<noteq> articleId) (Article d),
                ArticleEntity := (\<lambda>k. filter (\<lambda>l. fst l \<noteq> articleId) (ArticleEntity d k))\<rparr>))"

section \<open>The file system\<close>

text \<open>
  A path is the list of its segments, \<^verbatim>\<open>path.join\<close> appends one. The file system
  holds the contents of its files and the set of its directories. The paths in
  \<^verbatim>\<open>unwritable\<close> stand for whatever makes the host refuse a write there (permissions,
  a missing volume): creating, writing or removing such a path throws.
\<close>

type_synonym path = "string list"

type_synonym bytes = "8 word list"

record fs =
  files :: "path \<Rightarrow> bytes option"
  dirs :: "path set"
  unwritable :: "path set"

type_synonym 'a io = "(fs, 'a) action"

definition join :: "path \<Rightarrow> string \<Rightarrow> path" where
  "join dir name = dir @ [name]"

definition existsSync :: "fs \<Rightarrow> path \<Rightarrow> bool" where
  "existsSync f p = (files f p \<noteq> None \<or> p \<in> dirs f)"

text \<open>\<^verbatim>\<open>fs.mkdirSync(p, { recursive: true })\<close> creates the directory and its ancestors.\<close>

definition mkdirSync :: "path \<Rightarrow> unit io" where
  "mkdirSync p = (\<lambda>f.
     if p \<in> unwritable f \<or> files f p \<noteq> None then (Inl IOError, f)
     else (Inr (), f\<lparr>dirs := dirs f \<union> set (map (\<lambda>n. take n p) [1..<Suc (length p)])\<rparr>))"

definition writeFileSync :: "path \<Rightarrow> bytes \<Rightarrow> unit io" where
  "writeFileSync p b = (\<lambda>f.
     if p \<in> unwritable f \<or> p \<in> dirs f \<or> butlast p \<notin> dirs f then (Inl IOError, f)
     else (Inr (), f\<lparr>files := (files f)(p \<mapsto> b)\<rparr>))"

definition copyFileSync :: "path \<Rightarrow> path \<Rightarrow> unit io" where
  "copyFileSync src dest = (\<lambda>f.
     case files f src of
       None \<Rightarrow> (Inl IOError, f)
     | Some b \<Rightarrow> writeFileSync dest b f)"

definition unlinkSync :: "path \<Rightarrow> unit io" where
  "unlinkSync p = (\<lambda>f.
     if p \<in> unwritable f \<or> files f p = None then (Inl IOError, f)
     else (Inr (), f\<lparr>files := (files f)(p := None)\<rparr>))"

section \<open>File storage manager\<close>

definition isForbidden :: "char \<Rightarrow> bool" where
  "isForbidden c = (c \<in> {CHR ''<'', CHR ''>'', CHR '':'', CHR 0x22, CHR ''/'', CHR 0x5C,
                          CHR ''|'', CHR ''?'', CHR ''*''})"

definition makeName :: "string \<Rightarrow> string \<Rightarrow> string" where
  "makeName articleId title =
     (let cleanTitle = trim (map (\<lambda>c. if c = CHR ''_'' then CHR '' '' else c)
                              (map (\<lambda>c. if isForbidden c then CHR ''-'' else c) title));
          baseName = articleId @ '' - '' @ cleanTitle;
          maxLength = 200
      in if length baseName > maxLength then trim (substring0 maxLength baseName) else baseName)"

text \<open>\<^verbatim>\<open>StoragePaths\<close>: the two document directories under the storage root.\<close>

definition getPdfDir :: "string \<Rightarrow> path" where
  "getPdfDir root = join [root] ''pdfs''"

definition getNotesDir :: "string \<Rightarrow> path" where
  "getNotesDir root = join [root] ''notes''"

text \<open>
  The first row of the settings table: \<^verbatim>\<open>Boolean(useExternalStorage)\<close> and
  \<^verbatim>\<open>externalStoragePath || ''\<close>.
\<close>

definition getExternalStorageSettings :: "db \<Rightarrow> bool \<times> string" where
  "getExternalStorageSettings d =
     (case UserSettings d of
        [] \<Rightarrow> (False, [])
      | settings # _ \<Rightarrow>
          ((case useExternalStorage settings of None \<Rightarrow> False | Some n \<Rightarrow> n \<noteq> 0),
           (case externalStoragePath settings of None \<Rightarrow> [] | Some p \<Rightarrow> p)))"

text \<open>The body of \<^verbatim>\<open>copyToExternalIfEnabled\<close>, inside its \<^verbatim>\<open>try\<close>.\<close>

definition copyToExternal :: "db \<Rightarrow> path \<Rightarrow> string \<Rightarrow> string \<Rightarrow> unit io" where
  "copyToExternal d internalPath subdir fileName = (\<lambda>f.
     let external = getExternalStorageSettings d in
     if \<not> fst external \<or> snd external = [] then (Inr (), f)
     else
       (let externalDir = join [snd external] subdir in
        andThen (\<lambda>f. if \<not> existsSync f externalDir then mkdirSync externalDir f else (Inr (), f))
          (\<lambda>_. copyFileSync internalPath (join externalDir fileName)) f))"

text \<open>The \<^verbatim>\<open>catch\<close> logs the error and does not rethrow it.\<close>

definition copyToExternalIfEnabled :: "db \<Rightarrow> path \<Rightarrow> string \<Rightarrow> string \<Rightarrow> unit io" where
  "copyToExternalIfEnabled d internalPath subdir fileName = (\<lambda>f.
     case copyToExternal d internalPath subdir fileName f of
       (_, f') \<Rightarrow> (Inr (), f'))"

definition files_uploadPdf :: "string \<Rightarrow> db \<Rightarrow> string \<Rightarrow> string \<Rightarrow> bytes \<Rightarrow> string io" where
  "files_uploadPdf root d articleId articleTitle buffer =
     (let pdfFileName = makeName articleId articleTitle @ ''.pdf'';
          pdfPath = join (getPdfDir root) pdfFileName;
          pdfDir = getPdfDir root
      in andThen (\<lambda>f. if \<not> existsSync f pdfDir then mkdirSync pdfDir f else (Inr (), f))
          (\<lambda>_. andThen (writeFileSync pdfPath buffer)
          (\<lambda>_. andThen (copyToExternalIfEnabled d pdfPath ''pdfs'' pdfFileName)
          (\<lambda>_. returns pdfFileName))))"

text \<open>\<^verbatim>\<open>result?.title || null\<close>: no row and an empty title both give \<^verbatim>\<open>null\<close>.\<close>

definition getArticleTitle :: "db \<Rightarrow> string \<Rightarrow> string option" where
  "getArticleTitle d articleId =
     (case find (\<lambda>r. row_id r = articleId) (Article d) of
        None \<Rightarrow> None
      | Some result \<Rightarrow> orUndefined (row_title result))"

definition findPdfFile :: "string \<Rightarrow> db \<Rightarrow> fs \<Rightarrow> string \<Rightarrow> path option" where
  "findPdfFile root d f articleId =
     (let pdfDir = getPdfDir root;
          title = getArticleTitle d articleId;
          oldPath = join pdfDir (articleId @ ''.pdf'')
      in case title of
           Some t \<Rightarrow>
             (let newPath = join pdfDir (makeName articleId t @ ''.pdf'')
              in if existsSync f newPath then Some newPath
                 else if existsSync f oldPath then Some oldPath
                 else None)
         | None \<Rightarrow> if existsSync f oldPath then Some oldPath else None)"

text \<open>
  \<^verbatim>\<open>files:getPdfPath\<close> returns what \<^const>\<open>findPdfFile\<close> finds; \<^verbatim>\<open>files:openPdf\<close>
  throws when there is nothing to open and otherwise hands the path to the shell.
\<close>

definition files_getPdfPath :: "string \<Rightarrow> db \<Rightarrow> fs \<Rightarrow> string \<Rightarrow> path option" where
  "files_getPdfPath root d f articleId = findPdfFile root d f articleId"

definition files_openPdf :: "string \<Rightarrow> db \<Rightarrow> fs \<Rightarrow> string \<Rightarrow> error + path" where
  "files_openPdf root d f articleId =
     (case findPdfFile root d f articleId of
        None \<Rightarrow> Inl NotFound
      | Some pdfPath \<Rightarrow> Inr pdfPath)"

section \<open>Deleting an article\<close>

definition unlinkIfExists :: "path \<Rightarrow> unit io" where
  "unlinkIfExists p = (\<lambda>f. if existsSync f p then unlinkSync p f else (Inr (), f))"

text \<open>
  \<^verbatim>\<open>articles:delete\<close>: remove the files named by the bare id under the storage root
  and, when the settings say so, under the external root; then delete the row. An error
  thrown by a file operation leaves the handler before the row is deleted.
\<close>

definition deleteFiles :: "string \<Rightarrow> db \<Rightarrow> string \<Rightarrow> unit io" where
  "deleteFiles storagePath d articleId =
     andThen (unlinkIfExists (join (join [storagePath] ''pdfs'') (articleId @ ''.pdf'')))
       (\<lambda>_. andThen (unlinkIfExists (join (join [storagePath] ''notes'') (articleId @ ''.docx'')))
       (\<lambda>_. case UserSettings d of
               [] \<Rightarrow> returns ()
             | settings # _ \<Rightarrow>
                 (case (useExternalStorage settings, externalStoragePath settings) of
                    (Some n, Some p) \<Rightarrow>
                      if n \<noteq> 0 \<and> p \<noteq> [] then
                        andThen (unlinkIfExists (join (join [p] ''pdfs'') (articleId @ ''.pdf'')))
                          (\<lambda>_. unlinkIfExists (join (join [p] ''notes'') (articleId @ ''.docx'')))
                      else returns ()
                  | _ \<Rightarrow> returns ())))"

definition articles_delete :: "string \<Rightarrow> string \<Rightarrow> (db \<times> fs, unit) action" where
  "articles_delete storagePath articleId = (\<lambda>(d, f).
     case deleteFiles storagePath d articleId f of
       (Inl e, f') \<Rightarrow> (Inl e, (d, f'))
     | (Inr _, f') \<Rightarrow> (case deleteStmt articleId d of (r, d') \<Rightarrow> (r, (d', f'))))"

section \<open>Sequences of calls\<close>

text \<open>
  A caller invokes the handlers one after the other. Each create call carries the two
  clock readings of its moment, each update call one.
\<close>

datatype call =
  Create string string ArticleFormData
  | Update string string PartialFormData
  | Delete string


text \<open>
  The identifiers \<^const>\<open>getNextArticleId\<close> returns while a call is handled: create calls
  it once, after the duplicate guard has let the payload pass; update and delete never.
\<close>

fun allocated :: "call \<Rightarrow> db \<Rightarrow> string list" where
  "allocated (Create today now formData) d =
     (case duplicateCheck d (f_title formData) (f_authors formData) of
        Some _ \<Rightarrow> []
      | None \<Rightarrow> (case fst (getNextArticleId d) of Inr nextId \<Rightarrow> [nextId] | Inl _ \<Rightarrow> []))"
| "allocated (Update now articleId formData) d = []"
| "allocated (Delete articleId) d = []"


section \<open>Auxiliary notions\<close>

text \<open>
  The value the allocator hands out next (1 when there is no counter row), the identifier
  it is rendered as, and the store once it has been handed out.
\<close>

definition nextValue :: "db \<Rightarrow> nat" where
  "nextValue d = (case IdCounter d of None \<Rightarrow> 1 | Some n \<Rightarrow> n)"

definition nextIdOf :: "db \<Rightarrow> string" where
  "nextIdOf d = padStart 4 (CHR ''0'') (String (nextValue d))"

definition consumed :: "db \<Rightarrow> db" where
  "consumed d = d\<lparr>IdCounter := Some (nextValue d + 1)\<rparr>"

text \<open>
  Notions the proofs are organised by: an observation of the store that a statement
  leaves alone; the counter and the settings as one observation; a statement that can
  fail with one error only.
\<close>

definition keeps :: "(db \<Rightarrow> 'x) \<Rightarrow> 'a stmt \<Rightarrow> bool" where
  "keeps obs m = (\<forall>d. obs (snd (m d)) = obs d)"

definition config :: "db \<Rightarrow> nat option \<times> SettingsRow list" where
  "config d = (IdCounter d, UserSettings d)"

definition failsOnlyWith :: "error \<Rightarrow> 'a stmt \<Rightarrow> bool" where
  "failsOnlyWith e m = (\<forall>d e' d'. m d = (Inl e', d') \<longrightarrow> e' = e)"

text \<open>An update payload none of whose six entity arrays names an entity.\<close>

definition noNames :: "PartialFormData \<Rightarrow> bool" where
  "noNames formData =
     list_all (\<lambda>names. names = None \<or> names = Some [])
       [p_authors formData, p_keywords formData, p_subjects formData,
        p_tags formData, p_universities formData, p_companies formData]"

text \<open>
  A statement that, run for an identifier without article row, leaves the article rows
  alone and succeeds or fails with the constraint error according to a condition; two
  states related after every run of an action; two file systems that agree on the
  existence of every document path whose file name is not the given one; a store that
  has only gained rows; an article linked to an entity of a given name.
\<close>

definition settles :: "string \<Rightarrow> bool \<Rightarrow> unit stmt \<Rightarrow> bool" where
  "settles a c m = (\<forall>d. a \<notin> row_id ` set (Article d) \<longrightarrow>
     (\<exists>d'. m d = ((if c then Inr () else Inl ConstraintError), d') \<and> Article d' = Article d))"

definition relates :: "('s \<Rightarrow> 's \<Rightarrow> bool) \<Rightarrow> ('s, 'a) action \<Rightarrow> bool" where
  "relates R m = (\<forall>s. R s (snd (m s)))"

definition sameElsewhere :: "string \<Rightarrow> fs \<Rightarrow> fs \<Rightarrow> bool" where
  "sameElsewhere name f f' =
     (\<forall>p. length p = 3 \<and> last p \<noteq> name \<longrightarrow> existsSync f' p = existsSync f p)"

definition grows :: "db \<Rightarrow> db \<Rightarrow> bool" where
  "grows d d' = (set (Article d) \<subseteq> set (Article d')
     \<and> (\<forall>k. set (Entity d k) \<subseteq> set (Entity d' k))
     \<and> (\<forall>k. set (ArticleEntity d k) \<subseteq> set (ArticleEntity d' k)))"

definition growing :: "'a stmt \<Rightarrow> bool" where
  "growing m = (\<forall>d. grows d (snd (m d)))"

definition linked :: "db \<Rightarrow> kind \<Rightarrow> string \<Rightarrow> string \<Rightarrow> bool" where
  "linked d k articleId name =
     (\<exists>e \<in> set (Entity d k). snd e = name \<and> (articleId, fst e) \<in> set (ArticleEntity d k))"

section \<open>Example data\<close>

text \<open>
  A freshly initialised store (no rows, the counter seeded with 1, no settings row) and
  the article of the specification's scenario.
\<close>

definition freshStore :: db where
  "freshStore = \<lparr> Article = [], Entity = (\<lambda>_. []), ArticleEntity = (\<lambda>_. []),
                   UserSettings = [], IdCounter = Some 1 \<rparr>"

definition fooBar :: ArticleFormData where
  "fooBar = \<lparr> f_title = ''Foo Bar'', f_abstract = ''An abstract'', f_conclusion = None,
     f_year = 2024, f_date = ''2024-05-01'', f_journal = None, f_doi = None,
     f_language = ''English'', f_numPages = 12, f_researchQuestion = None,
     f_methodology = None, f_dataUsed = None, f_results = None, f_limitations = None,
     f_firstImp = None, f_notes = None, f_comment = None, f_rating = 3, f_read = False,
     f_favorite = False, f_authors = [''A. Doe''], f_keywords = [], f_subjects = [],
     f_tags = [], f_universities = [], f_companies = [] \<rparr>"

definition today0 :: string where
  "today0 = ''2026-01-01''"

definition now0 :: string where
  "now0 = ''2026-01-01 00:00:00''"

text \<open>The store after the scenario's article has been created.\<close>

definition fooBarStore :: db where
  "fooBarStore = snd (articles_create today0 now0 fooBar freshStore)"

text \<open>The empty update payload, and an empty file system.\<close>

definition emptyPayload :: PartialFormData where
  "emptyPayload = \<lparr> p_title = None, p_abstract = None, p_conclusion = None, p_year = None,
     p_date = None, p_journal = None, p_doi = None, p_language = None,
     p_numPages = None, p_researchQuestion = None, p_methodology = None, p_dataUsed = None,
     p_results = None, p_limitations = None, p_firstImp = None, p_notes = None,
     p_comment = None, p_rating = None, p_read = None, p_favorite = None,
     p_authors = None, p_keywords = None, p_subjects = None, p_tags = None,
     p_universities = None, p_companies = None \<rparr>"

definition emptyFs :: fs where
  "emptyFs = \<lparr> files = (\<lambda>_. None), dirs = {}, unwritable = {} \<rparr>"

text \<open>
  A store in which the article 0001 is present while the counter still stands at 1, as
  after an import of rows that bypasses the allocator.
\<close>

definition importedStore :: db where
  "importedStore = fooBarStore\<lparr>IdCounter := Some 1\<rparr>"

text \<open>A later clock reading, a storage root, and a second payload.\<close>

definition now1 :: string where
  "now1 = ''2026-02-02 10:30:00''"

definition root0 :: string where
  "root0 = ''storage''"

definition another :: ArticleFormData where
  "another = fooBar\<lparr>f_title := ''Another title'', f_authors := [''C. Poe'']\<rparr>"

text \<open>
  The scenario's store with external mirroring switched on, a file of ten bytes, a
  file system whose mirror directory cannot be created, and a file system that holds
  one document under the legacy name.
\<close>

definition mirrorStore :: db where
  "mirrorStore = fooBarStore\<lparr>UserSettings :=
     [\<lparr> externalStoragePath = Some ''cloud'', useExternalStorage = Some 1 \<rparr>]\<rparr>"

definition tenBytes :: bytes where
  "tenBytes = [37, 80, 68, 70, 45, 49, 46, 52, 10, 0]"

definition brokenMirrorFs :: fs where
  "brokenMirrorFs = emptyFs\<lparr>unwritable := {[''cloud'', ''pdfs'']}\<rparr>"

definition legacyFs :: fs where
  "legacyFs = \<lparr> files = (\<lambda>_. None)([root0, ''pdfs'', ''0001.pdf''] \<mapsto> [1, 2, 3]),
                dirs = {[root0], [root0, ''pdfs'']}, unwritable = {} \<rparr>"

section \<open>Basic facts\<close>






lemma andThen_Inr: "m d = (Inr v, d') \<Longrightarrow> andThen m f d = f v d'"
  by (simp add: andThen_def)

lemma andThen_Inl: "m d = (Inl e, d') \<Longrightarrow> andThen m f d = (Inl e, d')"
  by (simp add: andThen_def)

lemma first_row_None_iff: "(case xs of [] \<Rightarrow> None | x # _ \<Rightarrow> Some x) = None \<longleftrightarrow> xs = []"
  by (cases xs) simp_all

lemma concat_map_Nil: "concat (map g xs) = [] \<longleftrightarrow> (\<forall>x\<in>set xs. g x = [])"
  by (induction xs) auto

lemma if_single_Nil: "(if P then [v] else []) = [] \<longleftrightarrow> \<not> P"
  by simp

lemma duplicateCheck_None_iff:
  "duplicateCheck d title authors = None \<longleftrightarrow>
     \<not> (\<exists>a \<in> set (Article d). \<exists>aa \<in> set (ArticleEntity d Author). \<exists>au \<in> set (Entity d Author).
          row_id a = fst aa \<and> snd aa = fst au \<and> row_title a = title \<and> snd au \<in> set authors)"
  unfolding duplicateCheck_def first_row_None_iff
  by (simp only: concat_map_Nil if_single_Nil) blast


subsection \<open>allocator\<close>

lemma getNextArticleId_eq: "getNextArticleId d = (Inr (nextIdOf d), consumed d)"
  by (simp add: getNextArticleId_def andThen_def transaction_def getAndIncrement_def returns_def
      nextIdOf_def consumed_def nextValue_def split: option.splits)

lemma nextValue_consumed: "nextValue (consumed d) = Suc (nextValue d)"
  by (simp add: consumed_def nextValue_def)


subsection \<open>keeps\<close>


lemma keeps_returns: "keeps obs (returns v)"
  by (simp add: keeps_def returns_def)

lemma keeps_andThen:
  assumes "keeps obs m" and "\<And>v. keeps obs (f v)"
  shows "keeps obs (andThen m f)"
  unfolding keeps_def
proof
  fix d
  obtain r d' where md: "m d = (r, d')" by (cases "m d")
  from assms(1) md have o: "obs d' = obs d" by (auto simp: keeps_def dest: spec[of _ d])
  show "obs (snd (andThen m f d)) = obs d"
  proof (cases r)
    case (Inl e)
    with md o show ?thesis by (simp add: andThen_def)
  next
    case (Inr v)
    with md have "andThen m f d = f v d'" by (simp add: andThen_def)
    with assms(2)[of v] o show ?thesis by (simp add: keeps_def)
  qed
qed

lemma keeps_forEach:
  assumes "\<And>x. keeps obs (f x)"
  shows "keeps obs (forEach f xs)"
  by (induction xs) (simp_all add: keeps_returns keeps_andThen assms)



subsection \<open>frames of the primitive statements\<close>

lemma keeps_config_getOrCreateEntity: "keeps config (getOrCreateEntity k n)"
  by (simp add: keeps_def getOrCreateEntity_def config_def Let_def split: option.splits)

lemma keeps_config_linkArticleEntity: "keeps config (linkArticleEntity k a e)"
  by (simp add: keeps_def linkArticleEntity_def config_def)


lemma keeps_config_insertArticle: "keeps config (insertArticle r)"
  by (simp add: keeps_def insertArticle_def config_def)


lemma keeps_config_deleteStmt: "keeps config (deleteStmt a)"
  by (simp add: keeps_def deleteStmt_def config_def)

lemma keeps_config_resolveAndLink: "keeps config (resolveAndLink k a n)"
  unfolding resolveAndLink_def
  by (intro keeps_andThen keeps_config_getOrCreateEntity keeps_config_linkArticleEntity)


lemma keeps_config_createArticle: "keeps config (createArticle today now nextId fileName formData)"
  unfolding createArticle_def
  by (intro keeps_andThen keeps_forEach keeps_config_insertArticle keeps_config_resolveAndLink)


subsection \<open>growth during create\<close>

lemma grows_refl: "grows d d"
  by (simp add: grows_def)

lemma grows_trans: "grows d d' \<Longrightarrow> grows d' d'' \<Longrightarrow> grows d d''"
  unfolding grows_def by blast

lemma linked_grows: "linked d k a n \<Longrightarrow> grows d d' \<Longrightarrow> linked d' k a n"
  unfolding linked_def grows_def by blast

lemma getOrCreateEntity_result:
  "\<exists>e d'. getOrCreateEntity k n d = (Inr e, d') \<and> snd e = n \<and> e \<in> set (Entity d' k) \<and> grows d d'
      \<and> Article d' = Article d \<and> ArticleEntity d' = ArticleEntity d"
proof (cases "selectByName (Entity d k) n")
  case None
  then show ?thesis
    by (auto simp: getOrCreateEntity_def Let_def grows_def)
next
  case (Some e)
  then have "snd e = n \<and> e \<in> set (Entity d k)"
    unfolding selectByName_def by (auto simp: find_Some_iff)
  with Some show ?thesis
    by (simp add: getOrCreateEntity_def grows_refl)
qed

lemma linkArticleEntity_result:
  "linkArticleEntity k a i d = (Inr v, d') \<Longrightarrow> (a, i) \<in> set (ArticleEntity d' k) \<and> grows d d'"
  by (auto simp: linkArticleEntity_def grows_def split: if_splits)

lemma linkArticleEntity_grows: "grows d (snd (linkArticleEntity k a i d))"
  by (auto simp: linkArticleEntity_def grows_def split: if_splits)

lemma resolveAndLink_grows: "grows d (snd (resolveAndLink k a n d))"
proof -
  obtain e d1 where g: "getOrCreateEntity k n d = (Inr e, d1)" "grows d d1"
    using getOrCreateEntity_result[of k n d] by blast
  then have "resolveAndLink k a n d = linkArticleEntity k a (fst e) d1"
    by (simp add: resolveAndLink_def andThen_def)
  with g(2) linkArticleEntity_grows[of d1 k a "fst e"] show ?thesis
    by (auto intro: grows_trans)
qed

lemma resolveAndLink_linked:
  assumes "resolveAndLink k a n d = (Inr v, d')"
  shows "linked d' k a n"
proof -
  obtain e d1 where g: "getOrCreateEntity k n d = (Inr e, d1)" "snd e = n" "e \<in> set (Entity d1 k)"
    using getOrCreateEntity_result[of k n d] by blast
  then have "resolveAndLink k a n d = linkArticleEntity k a (fst e) d1"
    by (simp add: resolveAndLink_def andThen_def)
  with assms have l: "linkArticleEntity k a (fst e) d1 = (Inr v, d')" by simp
  from linkArticleEntity_result[OF l] g(2,3) show ?thesis
    unfolding linked_def grows_def by blast
qed

lemma forEach_resolveAndLink_grows: "grows d (snd (forEach (resolveAndLink k a) ns d))"
proof (induction ns arbitrary: d)
  case Nil
  show ?case by (simp add: returns_def grows_refl)
next
  case (Cons n ns)
  obtain r d1 where s: "resolveAndLink k a n d = (r, d1)" by (cases "resolveAndLink k a n d")
  with resolveAndLink_grows[of d k a n] have g: "grows d d1" by simp
  show ?case
  proof (cases r)
    case (Inl e)
    with s g show ?thesis by (simp add: andThen_def)
  next
    case (Inr v)
    with s have "forEach (resolveAndLink k a) (n # ns) d = forEach (resolveAndLink k a) ns d1"
      by (simp add: andThen_def)
    with g Cons.IH[of d1] show ?thesis by (auto intro: grows_trans)
  qed
qed

lemma forEach_resolveAndLink_linked:
  "forEach (resolveAndLink k a) ns d = (Inr v, d') \<Longrightarrow> n \<in> set ns \<Longrightarrow> linked d' k a n"
proof (induction ns arbitrary: d)
  case Nil
  then show ?case by simp
next
  case (Cons m ns)
  obtain r d1 where s: "resolveAndLink k a m d = (r, d1)" by (cases "resolveAndLink k a m d")
  with Cons.prems(1) obtain u where r: "r = Inr u"
    by (cases r) (auto simp: andThen_def)
  with s Cons.prems(1) have rest: "forEach (resolveAndLink k a) ns d1 = (Inr v, d')"
    by (simp add: andThen_def)
  show ?case
  proof (cases "n = m")
    case True
    from s r have "linked d1 k a m" by (auto intro: resolveAndLink_linked)
    moreover from forEach_resolveAndLink_grows[of d1 k a ns] rest have "grows d1 d'" by simp
    ultimately show ?thesis using True by (auto intro: linked_grows)
  next
    case False
    with Cons.prems(2) have "n \<in> set ns" by simp
    with Cons.IH[OF rest] show ?thesis .
  qed
qed


subsection \<open>growing statements\<close>

lemma growingD: "growing m \<Longrightarrow> m d = (r, d') \<Longrightarrow> grows d d'"
  unfolding growing_def by (metis snd_conv)

lemma growing_andThen:
  assumes "growing m" and "\<And>v. growing (f v)"
  shows "growing (andThen m f)"
  unfolding growing_def
proof
  fix d
  obtain r d' where md: "m d = (r, d')" by (cases "m d")
  with assms(1) have g: "grows d d'" by (rule growingD)
  show "grows d (snd (andThen m f d))"
  proof (cases r)
    case (Inl e)
    with md g show ?thesis by (simp add: andThen_def)
  next
    case (Inr v)
    with md have "andThen m f d = f v d'" by (simp add: andThen_def)
    moreover from assms(2)[of v] have "grows d' (snd (f v d'))" by (simp add: growing_def)
    ultimately show ?thesis using g by (auto intro: grows_trans)
  qed
qed

lemma growing_forEach_resolveAndLink: "growing (forEach (resolveAndLink k a) ns)"
  by (simp add: growing_def forEach_resolveAndLink_grows)

lemma growing_insertArticle: "growing (insertArticle r)"
  by (auto simp: growing_def insertArticle_def grows_def)

lemma andThen_InrD:
  "andThen m f d = (Inr v, d') \<Longrightarrow> \<exists>u d1. m d = (Inr u, d1) \<and> f u d1 = (Inr v, d')"
  by (cases "m d") (auto simp: andThen_def split: sum.splits)

lemma createArticle_success:
  assumes "createArticle today now nextId fileName formData d = (Inr v, d')"
  shows "\<exists>r \<in> set (Article d'). row_id r = nextId \<and> row_title r = f_title formData"
    and "\<forall>n \<in> set (f_authors formData). linked d' Author nextId n"
proof -
  let ?tail = "andThen (forEach (resolveAndLink Keyword nextId) (f_keywords formData))
       (\<lambda>_. andThen (forEach (resolveAndLink Subject nextId) (f_subjects formData))
       (\<lambda>_. andThen (forEach (resolveAndLink Tag nextId) (f_tags formData))
       (\<lambda>_. andThen (forEach (resolveAndLink University nextId) (f_universities formData))
       (\<lambda>_. forEach (resolveAndLink Company nextId) (f_companies formData)))))"
  let ?r = "insertValues today now nextId fileName formData"
  have rid: "row_id ?r = nextId" and rtitle: "row_title ?r = f_title formData"
    by (simp_all add: insertValues_def)
  from andThen_InrD[OF assms[unfolded createArticle_def]] obtain u1 d1 where
      ins: "insertArticle ?r d = (Inr u1, d1)"
      and rest: "andThen (forEach (resolveAndLink Author nextId) (f_authors formData)) (\<lambda>_. ?tail) d1 = (Inr v, d')"
    by blast
  from andThen_InrD[OF rest] obtain u2 d2 where
      au: "forEach (resolveAndLink Author nextId) (f_authors formData) d1 = (Inr u2, d2)"
      and tl: "?tail d2 = (Inr v, d')"
    by blast
  have "growing ?tail"
    by (intro growing_andThen growing_forEach_resolveAndLink)
  from growingD[OF this tl] have g2: "grows d2 d'" .
  from au have g1: "grows d1 d2"
    using forEach_resolveAndLink_grows[of d1 Author nextId "f_authors formData"] by simp
  from ins have "?r \<in> set (Article d1)"
    by (auto simp: insertArticle_def split: if_splits)
  with g1 g2 have "?r \<in> set (Article d')" unfolding grows_def by blast
  with rid rtitle show "\<exists>r \<in> set (Article d'). row_id r = nextId \<and> row_title r = f_title formData"
    by blast
  show "\<forall>n \<in> set (f_authors formData). linked d' Author nextId n"
    using forEach_resolveAndLink_linked[OF au] g2 by (blast intro: linked_grows)
qed

lemma articles_create_duplicate:
  "duplicateCheck d (f_title formData) (f_authors formData) = Some x
   \<Longrightarrow> articles_create today now formData d = (Inl DuplicateArticle, d)"
  by (simp add: articles_create_def)

lemma articles_create_fresh:
  assumes "duplicateCheck d (f_title formData) (f_authors formData) = None"
  shows "articles_create today now formData d =
     (case createArticle today now (nextIdOf d) (makeFileName (nextIdOf d) (f_title formData)) formData (consumed d) of
        (Inl e, _) \<Rightarrow> (Inl e, consumed d)
      | (Inr _, d2) \<Rightarrow> (Inr (getArticleWithRelations d2 (nextIdOf d)), d2))"
  using assms
  by (simp add: articles_create_def andThen_def getNextArticleId_eq transaction_def
      split: prod.splits sum.splits)

lemma duplicateCheck_SomeI:
  assumes "a \<in> set (Article d)" "row_title a = title" "(row_id a, i) \<in> set (ArticleEntity d Author)"
    "(i, n) \<in> set (Entity d Author)" "n \<in> set authors"
  shows "\<exists>x. duplicateCheck d title authors = Some x"
proof -
  have "duplicateCheck d title authors \<noteq> None"
    unfolding duplicateCheck_None_iff using assms by force
  then show ?thesis by blast
qed

subsection \<open>errors of the statements\<close>

lemma failsOnlyWith_returns: "failsOnlyWith e (returns v)"
  by (simp add: failsOnlyWith_def returns_def)

lemma failsOnlyWith_andThen:
  assumes "failsOnlyWith e m" and "\<And>v. failsOnlyWith e (f v)"
  shows "failsOnlyWith e (andThen m f)"
  using assms unfolding failsOnlyWith_def andThen_def
  by (auto split: prod.splits sum.splits)

lemma failsOnlyWith_forEach:
  assumes "\<And>x. failsOnlyWith e (f x)"
  shows "failsOnlyWith e (forEach f xs)"
  by (induction xs) (simp_all add: failsOnlyWith_returns failsOnlyWith_andThen assms)

lemma failsOnlyWith_getOrCreateEntity: "failsOnlyWith e (getOrCreateEntity k n)"
  by (auto simp: failsOnlyWith_def getOrCreateEntity_def Let_def split: option.splits)

lemma failsOnlyWith_linkArticleEntity: "failsOnlyWith ConstraintError (linkArticleEntity k a i)"
  by (auto simp: failsOnlyWith_def linkArticleEntity_def split: if_splits)

lemma failsOnlyWith_clearArticleRelations: "failsOnlyWith e (clearArticleRelations k a)"
  by (simp add: failsOnlyWith_def clearArticleRelations_def)

lemma failsOnlyWith_insertArticle: "failsOnlyWith ConstraintError (insertArticle r)"
  by (auto simp: failsOnlyWith_def insertArticle_def split: if_splits)

lemma failsOnlyWith_updateStmt: "failsOnlyWith e (updateStmt p now a)"
  by (simp add: failsOnlyWith_def updateStmt_def)

lemma failsOnlyWith_resolveAndLink: "failsOnlyWith ConstraintError (resolveAndLink k a n)"
  unfolding resolveAndLink_def
  by (intro failsOnlyWith_andThen failsOnlyWith_getOrCreateEntity failsOnlyWith_linkArticleEntity)

lemma failsOnlyWith_replaceLinks: "failsOnlyWith ConstraintError (replaceLinks k a names)"
  unfolding replaceLinks_def
  by (cases names)
     (auto intro!: failsOnlyWith_andThen failsOnlyWith_forEach failsOnlyWith_returns
        failsOnlyWith_clearArticleRelations failsOnlyWith_resolveAndLink)

lemma failsOnlyWith_createArticle:
  "failsOnlyWith ConstraintError (createArticle today now nextId fileName formData)"
  unfolding createArticle_def
  by (intro failsOnlyWith_andThen failsOnlyWith_forEach failsOnlyWith_insertArticle
      failsOnlyWith_resolveAndLink)

lemma failsOnlyWith_updateArticle: "failsOnlyWith ConstraintError (updateArticle now a formData)"
  unfolding updateArticle_def
  by (intro failsOnlyWith_andThen failsOnlyWith_updateStmt failsOnlyWith_replaceLinks)

lemma failsOnlyWithD: "failsOnlyWith e m \<Longrightarrow> m d = (Inl e', d') \<Longrightarrow> e' = e"
  unfolding failsOnlyWith_def by blast

lemma keeps_result: "keeps obs m \<Longrightarrow> m d = (r, d') \<Longrightarrow> obs d' = obs d"
  unfolding keeps_def by (metis snd_conv)

subsection \<open>what create returns\<close>

lemma linked_selectEntities:
  assumes "linked d k a n"
  shows "n \<in> snd ` set (selectEntities d k a)"
proof -
  from assms obtain e where e: "e \<in> set (Entity d k)" "snd e = n" "(a, fst e) \<in> set (ArticleEntity d k)"
    unfolding linked_def by blast
  then have "e \<in> set (selectEntities d k a)"
    unfolding selectEntities_def by force
  with e(2) show ?thesis by force
qed

lemma getArticleWithRelations_present:
  assumes "r \<in> set (Article d)" and "row_id r = a"
  shows "\<exists>article. getArticleWithRelations d a = Some article \<and> art_id article = a
            \<and> art_authors article = selectEntities d Author a"
proof -
  from assms have "find (\<lambda>r. row_id r = a) (Article d) \<noteq> None"
    by (auto simp: find_None_iff)
  then obtain r' where f: "find (\<lambda>r. row_id r = a) (Article d) = Some r'" by blast
  then have "row_id r' = a" by (auto simp: find_Some_iff)
  with f show ?thesis by (simp add: getArticleWithRelations_def)
qed

subsection \<open>the counter along a sequence of calls\<close>









subsection \<open>update with the empty payload\<close>

lemma updateRow_emptyPayload: "updateRow emptyPayload now r = r\<lparr>row_updatedAt := now\<rparr>"
  by (simp add: updateRow_def emptyPayload_def)

lemma emptyPayload_names:
  "p_authors emptyPayload = None" "p_keywords emptyPayload = None"
  "p_subjects emptyPayload = None" "p_tags emptyPayload = None"
  "p_universities emptyPayload = None" "p_companies emptyPayload = None"
  by (simp_all add: emptyPayload_def)

lemma updateArticle_emptyPayload:
  "updateArticle now a emptyPayload d =
     (Inr (), d\<lparr>Article := map (\<lambda>r. if row_id r = a then r\<lparr>row_updatedAt := now\<rparr> else r) (Article d)\<rparr>)"
  by (simp add: updateArticle_def updateStmt_def updateRow_emptyPayload andThen_def
      replaceLinks_def returns_def emptyPayload_names)

lemma find_map_same_id:
  assumes "\<And>r. row_id (h r) = row_id r"
  shows "find (\<lambda>r. row_id r = b) (map h rows) = map_option h (find (\<lambda>r. row_id r = b) rows)"
  by (induction rows) (simp_all add: assms)

lemma getArticleWithRelations_touch:
  "getArticleWithRelations
     (d\<lparr>Article := map (\<lambda>r. if row_id r = a then r\<lparr>row_updatedAt := now\<rparr> else r) (Article d)\<rparr>) b
   = (if b = a
      then map_option (\<lambda>x. x\<lparr>art_updatedAt := orUndefined now\<rparr>) (getArticleWithRelations d a)
      else getArticleWithRelations d b)"
proof -
  let ?h = "\<lambda>r. if row_id r = a then r\<lparr>row_updatedAt := now\<rparr> else r"
  have f: "find (\<lambda>r. row_id r = b) (map ?h (Article d)) = map_option ?h (find (\<lambda>r. row_id r = b) (Article d))"
    by (rule find_map_same_id) simp
  show ?thesis
  proof (cases "find (\<lambda>r. row_id r = b) (Article d)")
    case None
    with f show ?thesis by (cases "b = a") (simp_all add: getArticleWithRelations_def)
  next
    case (Some r)
    then have "row_id r = b" by (auto simp: find_Some_iff)
    with f Some show ?thesis
      by (cases "b = a") (simp_all add: getArticleWithRelations_def selectEntities_def)
  qed
qed

subsection \<open>update of an article that is not there\<close>

lemma updateStmt_absent:
  assumes "a \<notin> row_id ` set (Article d)"
  shows "updateStmt p now a d = (Inr (), d)"
proof -
  have "map (\<lambda>r. if row_id r = a then updateRow p now r else r) (Article d) = Article d"
    using assms by (intro map_idI) auto
  then show ?thesis by (simp add: updateStmt_def)
qed

lemma replaceLinks_absent:
  assumes "a \<notin> row_id ` set (Article d)"
  shows "\<exists>d'. replaceLinks k a names d =
            ((if names = None \<or> names = Some [] then Inr () else Inl ConstraintError), d')
          \<and> Article d' = Article d"
proof (cases names)
  case None
  then show ?thesis by (simp add: replaceLinks_def returns_def)
next
  case (Some ns)
  let ?dc = "d\<lparr>ArticleEntity := (ArticleEntity d)(k := filter (\<lambda>l. fst l \<noteq> a) (ArticleEntity d k))\<rparr>"
  have clear: "clearArticleRelations k a d = (Inr (), ?dc)"
    by (simp add: clearArticleRelations_def)
  show ?thesis
  proof (cases ns)
    case Nil
    with Some clear show ?thesis
      by (simp add: replaceLinks_def andThen_def returns_def)
  next
    case (Cons n ns')
    obtain e d1 where g: "getOrCreateEntity k n ?dc = (Inr e, d1)"
        "Article d1 = Article ?dc" "ArticleEntity d1 = ArticleEntity ?dc"
      using getOrCreateEntity_result[of k n ?dc] by blast
    from g(2,3) assms have "linkArticleEntity k a (fst e) d1 = (Inl ConstraintError, d1)"
      by (auto simp: linkArticleEntity_def)
    with g(1) have "resolveAndLink k a n ?dc = (Inl ConstraintError, d1)"
      by (simp add: resolveAndLink_def andThen_def)
    with Some Cons clear g(2) show ?thesis
      by (simp add: replaceLinks_def andThen_def)
  qed
qed

lemma settles_andThen:
  assumes "settles a c m" and "settles a c' m'"
  shows "settles a (c \<and> c') (andThen m (\<lambda>_. m'))"
  unfolding settles_def
proof (intro allI impI)
  fix d :: db
  assume absent: "a \<notin> row_id ` set (Article d)"
  with assms(1) obtain d1 where
    m: "m d = ((if c then Inr () else Inl ConstraintError), d1)" and r1: "Article d1 = Article d"
    unfolding settles_def by blast
  from absent r1 have "a \<notin> row_id ` set (Article d1)" by simp
  with assms(2) obtain d2 where
    m': "m' d1 = ((if c' then Inr () else Inl ConstraintError), d2)" and r2: "Article d2 = Article d1"
    unfolding settles_def by blast
  show "\<exists>d'. andThen m (\<lambda>_. m') d = ((if c \<and> c' then Inr () else Inl ConstraintError), d')
           \<and> Article d' = Article d"
  proof (cases c)
    case True
    with m m' r1 r2 show ?thesis by (simp add: andThen_def)
  next
    case False
    with m r1 show ?thesis by (simp add: andThen_def)
  qed
qed

lemma settles_replaceLinks: "settles a (names = None \<or> names = Some []) (replaceLinks k a names)"
  unfolding settles_def using replaceLinks_absent by blast

lemma settles_updateStmt: "settles a True (updateStmt p now a)"
  unfolding settles_def using updateStmt_absent by simp

lemma updateArticle_absent:
  assumes "a \<notin> row_id ` set (Article d)"
  shows "\<exists>d'. updateArticle now a formData d =
            ((if noNames formData then Inr () else Inl ConstraintError), d')
          \<and> Article d' = Article d"
proof -
  have "settles a (True \<and> (p_authors formData = None \<or> p_authors formData = Some [])
          \<and> (p_keywords formData = None \<or> p_keywords formData = Some [])
          \<and> (p_subjects formData = None \<or> p_subjects formData = Some [])
          \<and> (p_tags formData = None \<or> p_tags formData = Some [])
          \<and> (p_universities formData = None \<or> p_universities formData = Some [])
          \<and> (p_companies formData = None \<or> p_companies formData = Some []))
        (updateArticle now a formData)"
    unfolding updateArticle_def
    by (intro settles_andThen settles_updateStmt settles_replaceLinks)
  then have "settles a (noNames formData) (updateArticle now a formData)"
    by (simp add: noNames_def)
  with assms show ?thesis unfolding settles_def by blast
qed

subsection \<open>related states\<close>

lemma relates_result: "relates R m \<Longrightarrow> m s = (r, s') \<Longrightarrow> R s s'"
  unfolding relates_def by (metis snd_conv)

lemma relates_returns: "reflp R \<Longrightarrow> relates R (returns v)"
  by (simp add: relates_def returns_def reflpD)

lemma relates_andThen:
  assumes "transp R" and "relates R m" and "\<And>v. relates R (f v)"
  shows "relates R (andThen m f)"
  unfolding relates_def
proof
  fix s
  obtain r s1 where ms: "m s = (r, s1)" by (cases "m s")
  from relates_result[OF assms(2) ms] have r1: "R s s1" .
  show "R s (snd (andThen m f s))"
  proof (cases r)
    case (Inl e)
    with ms r1 show ?thesis by (simp add: andThen_def)
  next
    case (Inr v)
    with ms have "andThen m f s = f v s1" by (simp add: andThen_def)
    moreover from assms(3)[of v] have "R s1 (snd (f v s1))" by (simp add: relates_def)
    ultimately show ?thesis using r1 assms(1) by (auto dest: transpD)
  qed
qed

subsection \<open>what a store of a file leaves alone\<close>

lemma sameElsewhere_refl: "reflp (sameElsewhere name)"
  by (simp add: reflp_def sameElsewhere_def)

lemma sameElsewhere_trans: "transp (sameElsewhere name)"
  by (auto simp: transp_def sameElsewhere_def)

lemma mkdirSync_sameElsewhere: "length q \<le> 2 \<Longrightarrow> relates (sameElsewhere name) (mkdirSync q)"
  by (auto simp: relates_def sameElsewhere_def mkdirSync_def existsSync_def)

lemma writeFileSync_sameElsewhere: "last q = name \<Longrightarrow> relates (sameElsewhere name) (writeFileSync q b)"
  by (auto simp: relates_def sameElsewhere_def writeFileSync_def existsSync_def)

lemma copyFileSync_sameElsewhere: "last q = name \<Longrightarrow> relates (sameElsewhere name) (copyFileSync src q)"
  using writeFileSync_sameElsewhere[of q name]
  by (auto simp: relates_def copyFileSync_def sameElsewhere_refl[THEN reflpD] split: option.splits)

lemma ensureDir_sameElsewhere:
  "length q \<le> 2 \<Longrightarrow>
     relates (sameElsewhere name) (\<lambda>f. if \<not> existsSync f q then mkdirSync q f else (Inr (), f))"
  using mkdirSync_sameElsewhere[of q name]
  by (auto simp: relates_def sameElsewhere_refl[THEN reflpD])

lemma copyToExternal_sameElsewhere:
  "relates (sameElsewhere name) (copyToExternal d src subdir name)"
proof -
  let ?ext = "getExternalStorageSettings d"
  let ?dir = "join [snd ?ext] subdir"
  have "relates (sameElsewhere name)
          (andThen (\<lambda>f. if \<not> existsSync f ?dir then mkdirSync ?dir f else (Inr (), f))
             (\<lambda>_. copyFileSync src (join ?dir name)))"
    by (intro relates_andThen sameElsewhere_trans ensureDir_sameElsewhere copyFileSync_sameElsewhere)
       (simp_all add: join_def)
  then show ?thesis
    unfolding relates_def copyToExternal_def
    by (auto simp: Let_def sameElsewhere_refl[THEN reflpD])
qed

lemma copyToExternalIfEnabled_sameElsewhere:
  "relates (sameElsewhere name) (copyToExternalIfEnabled d src subdir name)"
  unfolding relates_def
proof
  fix f
  obtain r f' where c: "copyToExternal d src subdir name f = (r, f')"
    by (cases "copyToExternal d src subdir name f")
  from relates_result[OF copyToExternal_sameElsewhere c]
  show "sameElsewhere name f (snd (copyToExternalIfEnabled d src subdir name f))"
    using c by (simp add: copyToExternalIfEnabled_def)
qed

lemma files_uploadPdf_sameElsewhere:
  "relates (sameElsewhere (makeName articleId articleTitle @ ''.pdf''))
     (files_uploadPdf root d articleId articleTitle buffer)"
  unfolding files_uploadPdf_def Let_def
  by (intro relates_andThen sameElsewhere_trans ensureDir_sameElsewhere writeFileSync_sameElsewhere
      copyToExternalIfEnabled_sameElsewhere relates_returns sameElsewhere_refl)
     (simp_all add: join_def getPdfDir_def)

subsection \<open>what a store of a file writes\<close>

lemma copyToExternal_keeps_source:
  assumes "files f src = Some b"
  shows "files (snd (copyToExternal d src subdir name f)) src = Some b"
proof -
  have mk: "files (snd (mkdirSync q f)) = files f" for q
    by (simp add: mkdirSync_def)
  have cp: "files g src = Some b \<Longrightarrow> files (snd (copyFileSync src q g)) src = Some b" for q g
    by (simp add: copyFileSync_def writeFileSync_def)
  show ?thesis
    using assms
    by (auto simp: copyToExternal_def Let_def andThen_def split: prod.splits sum.splits)
       (metis cp mk snd_conv)+
qed

lemma files_uploadPdf_stored:
  assumes "files_uploadPdf root d articleId articleTitle buffer f = (Inr name, f1)"
  shows "name = makeName articleId articleTitle @ ''.pdf''"
    and "files f1 (join (getPdfDir root) (makeName articleId articleTitle @ ''.pdf'')) = Some buffer"
proof -
  let ?name = "makeName articleId articleTitle @ ''.pdf''"
  let ?path = "join (getPdfDir root) ?name"
  from assms[unfolded files_uploadPdf_def Let_def] have
    "andThen (\<lambda>f. if \<not> existsSync f (getPdfDir root) then mkdirSync (getPdfDir root) f else (Inr (), f))
       (\<lambda>_. andThen (writeFileSync ?path buffer)
       (\<lambda>_. andThen (copyToExternalIfEnabled d ?path ''pdfs'' ?name)
       (\<lambda>_. returns ?name))) f = (Inr name, f1)" .
  from andThen_InrD[OF this] obtain u0 f0 where
    rest0: "andThen (writeFileSync ?path buffer)
       (\<lambda>_. andThen (copyToExternalIfEnabled d ?path ''pdfs'' ?name)
       (\<lambda>_. returns ?name)) f0 = (Inr name, f1)" by blast
  from andThen_InrD[OF rest0] obtain u1 fw where
    w: "writeFileSync ?path buffer f0 = (Inr u1, fw)"
    and rest1: "andThen (copyToExternalIfEnabled d ?path ''pdfs'' ?name) (\<lambda>_. returns ?name) fw = (Inr name, f1)"
    by blast
  from andThen_InrD[OF rest1] obtain u2 fc where
    c: "copyToExternalIfEnabled d ?path ''pdfs'' ?name fw = (Inr u2, fc)"
    and ret: "returns ?name fc = (Inr name, f1)" by blast
  from ret show "name = ?name" by (simp add: returns_def)
  from ret have f1: "f1 = fc" by (simp add: returns_def)
  from w have "files fw ?path = Some buffer"
    by (auto simp: writeFileSync_def split: if_splits)
  from copyToExternal_keeps_source[OF this, of d "''pdfs''" ?name] c f1
  show "files f1 ?path = Some buffer"
    by (auto simp: copyToExternalIfEnabled_def split: prod.splits)
qed


subsection \<open>the title after an update\<close>

lemma keeps_Article_replaceLinks: "keeps Article (replaceLinks k a names)"
proof -
  have g: "keeps Article (getOrCreateEntity k n)" for n
    by (simp add: keeps_def getOrCreateEntity_def Let_def split: option.splits)
  have l: "keeps Article (linkArticleEntity k a i)" for i
    by (simp add: keeps_def linkArticleEntity_def)
  have c: "keeps Article (clearArticleRelations k a)"
    by (simp add: keeps_def clearArticleRelations_def)
  have "keeps Article (resolveAndLink k a n)" for n
    unfolding resolveAndLink_def by (intro keeps_andThen g l)
  with c show ?thesis
    unfolding replaceLinks_def
    by (cases names) (auto intro!: keeps_andThen keeps_forEach keeps_returns)
qed

lemma updateArticle_rows:
  assumes "updateArticle now a formData d = (r, d')"
  shows "Article d' = map (\<lambda>r. if row_id r = a then updateRow formData now r else r) (Article d)"
proof -
  let ?du = "d\<lparr>Article := map (\<lambda>r. if row_id r = a then updateRow formData now r else r) (Article d)\<rparr>"
  let ?rest = "andThen (replaceLinks Author a (p_authors formData))
       (\<lambda>_. andThen (replaceLinks Keyword a (p_keywords formData))
       (\<lambda>_. andThen (replaceLinks Subject a (p_subjects formData))
       (\<lambda>_. andThen (replaceLinks Tag a (p_tags formData))
       (\<lambda>_. andThen (replaceLinks University a (p_universities formData))
       (\<lambda>_. replaceLinks Company a (p_companies formData))))))"
  have "keeps Article ?rest"
    by (intro keeps_andThen keeps_Article_replaceLinks)
  moreover from assms have "?rest ?du = (r, d')"
    by (simp add: updateArticle_def updateStmt_def andThen_def)
  ultimately have "Article d' = Article ?du" by (rule keeps_result)
  then show ?thesis by simp
qed

lemma articles_update_title:
  assumes "articles_update now a formData d = (Inr result, d2)" and "p_title formData = Some t"
  shows "getArticleTitle d2 a = None \<or> getArticleTitle d2 a = Some t"
proof -
  let ?h = "\<lambda>r. if row_id r = a then updateRow formData now r else r"
  obtain rb db where body: "updateArticle now a formData d = (rb, db)"
    by (cases "updateArticle now a formData d")
  with assms(1) have "d2 = db"
    by (cases rb) (auto simp: articles_update_def andThen_def transaction_def)
  with updateArticle_rows[OF body] have rows: "Article d2 = map ?h (Article d)" by simp
  have "find (\<lambda>r. row_id r = a) (map ?h (Article d)) = map_option ?h (find (\<lambda>r. row_id r = a) (Article d))"
    by (rule find_map_same_id) (simp add: updateRow_def)
  with rows have f: "find (\<lambda>r. row_id r = a) (Article d2) = map_option ?h (find (\<lambda>r. row_id r = a) (Article d))"
    by simp
  show ?thesis
  proof (cases "find (\<lambda>r. row_id r = a) (Article d)")
    case None
    with f show ?thesis by (simp add: getArticleTitle_def)
  next
    case (Some r)
    then have "row_id r = a" by (auto simp: find_Some_iff)
    moreover from assms(2) have "row_title (updateRow formData now r) = t"
      by (simp add: updateRow_def)
    ultimately show ?thesis using f Some
      by (simp add: getArticleTitle_def orUndefined_def)
  qed
qed

lemma findPdfFile_candidates:
  "findPdfFile root d f a =
     (case getArticleTitle d a of
        Some t \<Rightarrow>
          if existsSync f (join (getPdfDir root) (makeName a t @ ''.pdf''))
          then Some (join (getPdfDir root) (makeName a t @ ''.pdf''))
          else if existsSync f (join (getPdfDir root) (a @ ''.pdf''))
          then Some (join (getPdfDir root) (a @ ''.pdf'')) else None
      | None \<Rightarrow>
          if existsSync f (join (getPdfDir root) (a @ ''.pdf''))
          then Some (join (getPdfDir root) (a @ ''.pdf'')) else None)"
  by (simp add: findPdfFile_def Let_def split: option.splits)

subsection \<open>a create that succeeds\<close>

lemma articles_create_success:
  assumes "articles_create today now formData d = (Inr result, d')"
  shows "duplicateCheck d (f_title formData) (f_authors formData) = None"
    and "\<exists>v. createArticle today now (nextIdOf d) (makeFileName (nextIdOf d) (f_title formData))
              formData (consumed d) = (Inr v, d')"
    and "\<exists>article. result = Some article \<and> art_id article = nextIdOf d
            \<and> art_authors article = selectEntities d' Author (nextIdOf d)"
proof -
  show nodup: "duplicateCheck d (f_title formData) (f_authors formData) = None"
  proof (cases "duplicateCheck d (f_title formData) (f_authors formData)")
    case (Some x)
    with assms show ?thesis by (simp add: articles_create_duplicate)
  qed simp
  let ?body = "createArticle today now (nextIdOf d) (makeFileName (nextIdOf d) (f_title formData)) formData"
  from assms obtain v where ok: "?body (consumed d) = (Inr v, d')"
    and r: "result = getArticleWithRelations d' (nextIdOf d)"
    unfolding articles_create_fresh[OF nodup] by (auto split: prod.splits sum.splits)
  from ok show "\<exists>v. ?body (consumed d) = (Inr v, d')" by blast
  from createArticle_success(1)[OF ok] obtain row where
    row: "row \<in> set (Article d')" "row_id row = nextIdOf d" by blast
  from getArticleWithRelations_present[OF row] r
  show "\<exists>article. result = Some article \<and> art_id article = nextIdOf d
            \<and> art_authors article = selectEntities d' Author (nextIdOf d)"
    by simp
qed

lemma successful_create_returns_allocated:
  assumes "articles_create today now formData d = (Inr result, d')"
  shows "\<exists>article. result = Some article \<and> allocated (Create today now formData) d = [art_id article]"
  using articles_create_success(1,3)[OF assms]
  by (auto simp: getNextArticleId_eq)

subsection \<open>The example store\<close>

lemma fooBarStore_Article:
  "Article fooBarStore = [insertValues today0 now0 ''0001'' ''0001 - Foo Bar'' fooBar]"
  by code_simp

lemma fooBarStore_Author: "Entity fooBarStore Author = [(1, ''A. Doe'')]"
  by code_simp

lemma fooBarStore_ArticleAuthor: "ArticleEntity fooBarStore Author = [(''0001'', 1)]"
  by code_simp

lemma succeeded:
  assumes "\<not> isl (fst (m d))"
  obtains r where "m d = (Inr r, snd (m d))"
  using assms by (cases "m d"; cases "fst (m d)") auto

lemma makeName_fooBar: "makeName ''0001'' ''Foo Bar'' = ''0001 - Foo Bar''"
  by code_simp

lemma fooBarStore_title: "getArticleTitle fooBarStore ''0001'' = Some ''Foo Bar''"
  by code_simp

section \<open>The identifier allocator\<close>



section \<open>The transactions of create\<close>

text \<open>
  C2, as stated: a create that fails partway leaves the old state. In a store where the
  identifier the counter hands out next is already taken by a row, the insert of create
  violates the primary key; the create fails, no row is added, and yet the counter has
  moved from 1 to 2: the allocation was committed on its own.
\<close>

theorem create_failure_consumes_identifier_counterexample:
  "fst (articles_create today0 now0 another importedStore) = Inl ConstraintError
   \<and> IdCounter importedStore = Some 1
   \<and> IdCounter (snd (articles_create today0 now0 another importedStore)) = Some 2
   \<and> Article (snd (articles_create today0 now0 another importedStore)) = Article importedStore"
  by code_simp

text \<open>
  C2, amended: create runs two transactions, the allocation of the identifier first and
  on its own, then the insert of the article row with all its entity links. A create
  that the duplicate guard rejects leaves the store as it was. A create that fails later
  fails with the store's constraint error and leaves the store as it was but for the
  counter, which has advanced by one. A create that succeeds returns the article under
  the allocated identifier, linked to an author entity for every author name of the
  payload, and has advanced the counter by one.
\<close>

theorem create_two_transactions:
  assumes "articles_create today now formData d = (r, d')"
  shows "case r of
           Inl e \<Rightarrow>
             (e = DuplicateArticle \<and> d' = d)
             \<or> (e = ConstraintError \<and> d' = d\<lparr>IdCounter := Some (nextValue d + 1)\<rparr>)
         | Inr result \<Rightarrow>
             (\<exists>article. result = Some article \<and> art_id article = nextIdOf d
                \<and> set (f_authors formData) \<subseteq> snd ` set (art_authors article))
             \<and> IdCounter d' = Some (nextValue d + 1)"
proof (cases r)
  case (Inl e)
  show ?thesis
  proof (cases "duplicateCheck d (f_title formData) (f_authors formData)")
    case (Some x)
    with assms Inl show ?thesis by (auto simp: articles_create_duplicate)
  next
    case None
    let ?body = "createArticle today now (nextIdOf d) (makeFileName (nextIdOf d) (f_title formData)) formData"
    from assms Inl obtain db where body: "?body (consumed d) = (Inl e, db)" and d': "d' = consumed d"
      unfolding articles_create_fresh[OF None] by (auto split: prod.splits sum.splits)
    from failsOnlyWithD[OF failsOnlyWith_createArticle body] have "e = ConstraintError" .
    with Inl d' show ?thesis by (simp add: consumed_def)
  qed
next
  case (Inr result)
  with assms have run: "articles_create today now formData d = (Inr result, d')" by simp
  from articles_create_success(2)[OF run] obtain v where
    ok: "createArticle today now (nextIdOf d) (makeFileName (nextIdOf d) (f_title formData))
           formData (consumed d) = (Inr v, d')" by blast
  from articles_create_success(3)[OF run] obtain article where
    art: "result = Some article" "art_id article = nextIdOf d"
      "art_authors article = selectEntities d' Author (nextIdOf d)" by blast
  have "set (f_authors formData) \<subseteq> snd ` set (art_authors article)"
    using createArticle_success(2)[OF ok] linked_selectEntities unfolding art(3) by blast
  moreover have "IdCounter d' = Some (nextValue d + 1)"
    using keeps_result[OF keeps_config_createArticle ok]
    by (simp add: config_def consumed_def)
  ultimately show ?thesis using Inr art by simp
qed

text \<open>The failing create of the counterexample, and the successful create of the scenario.\<close>

theorem create_two_transactions_witness:
  "snd (articles_create today0 now0 another importedStore) = importedStore\<lparr>IdCounter := Some 2\<rparr>
   \<and> IdCounter (snd (articles_create today0 now0 fooBar freshStore)) = Some 2"
proof -
  let ?failing = "articles_create today0 now0 another importedStore"
  let ?passing = "articles_create today0 now0 fooBar freshStore"
  have failed: "fst ?failing = Inl ConstraintError"
    by code_simp
  have "nextValue importedStore = 1"
    by (simp add: nextValue_def importedStore_def)
  with create_two_transactions[OF surjective_pairing, of today0 now0 another importedStore] failed
  have "snd ?failing = importedStore\<lparr>IdCounter := Some 2\<rparr>"
    by simp
  moreover have "\<not> isl (fst ?passing)"
    by code_simp
  then obtain result where "fst ?passing = Inr result"
    by (cases "fst ?passing") auto
  with create_two_transactions[OF surjective_pairing, of today0 now0 fooBar freshStore]
  have "IdCounter (snd ?passing) = Some 2"
    by (simp add: nextValue_def freshStore_def)
  ultimately show ?thesis by simp
qed

section \<open>The duplicate guard of create\<close>

text \<open>
  C9. The duplicate guard of create rejects a payload with the duplicate-article error
  whenever some stored article has the payload's title and is linked to an author whose
  name occurs in the payload's author list. One shared name is enough: the author sets
  need not be equal. The store is left as it was.
\<close>

theorem duplicate_guard_rejects_shared_author:
  assumes "a \<in> set (Article d)" and "row_title a = f_title formData"
    and "(row_id a, i) \<in> set (ArticleEntity d Author)"
    and "(i, n) \<in> set (Entity d Author)"
    and "n \<in> set (f_authors formData)"
  shows "articles_create today now formData d = (Inl DuplicateArticle, d)"
  using duplicateCheck_SomeI[OF assms] articles_create_duplicate by blast

text \<open>
  The stored article has the single author A. Doe; the payload has the same title and
  the authors A. Doe and B. Roe.
\<close>

theorem duplicate_guard_rejects_shared_author_witness:
  "set (f_authors (fooBar\<lparr>f_authors := [''A. Doe'', ''B. Roe'']\<rparr>)) \<noteq> set (f_authors fooBar)
   \<and> articles_create today0 now0 (fooBar\<lparr>f_authors := [''A. Doe'', ''B. Roe'']\<rparr>) fooBarStore
       = (Inl DuplicateArticle, fooBarStore)"
proof -
  let ?a = "insertValues today0 now0 ''0001'' ''0001 - Foo Bar'' fooBar"
  have "articles_create today0 now0 (fooBar\<lparr>f_authors := [''A. Doe'', ''B. Roe'']\<rparr>) fooBarStore
       = (Inl DuplicateArticle, fooBarStore)"
    by (rule duplicate_guard_rejects_shared_author[where a = ?a and i = 1 and n = "''A. Doe''"])
       (simp_all add: fooBarStore_Article fooBarStore_Author fooBarStore_ArticleAuthor
          insertValues_def fooBar_def)
  moreover have "set (f_authors (fooBar\<lparr>f_authors := [''A. Doe'', ''B. Roe'']\<rparr>)) \<noteq> set (f_authors fooBar)"
    by (simp add: fooBar_def)
  ultimately show ?thesis by simp
qed

text \<open>
  C4, as stated: creating an article with title T and author set A after an article with
  the same title and the same author set exists fails with the duplicate-article error.
  With the empty author list the guard's query joins nothing: both creates succeed, and
  the second article gets the identifier 0002.
\<close>

theorem create_twice_no_authors_counterexample:
  "map_sum (\<lambda>e. e) (map_option art_id)
     (fst (articles_create today0 now0 (fooBar\<lparr>f_authors := []\<rparr>)
        (snd (articles_create today0 now0 (fooBar\<lparr>f_authors := []\<rparr>) freshStore))))
   = Inr (Some ''0002'')
   \<and> \<not> isl (fst (articles_create today0 now0 (fooBar\<lparr>f_authors := []\<rparr>) freshStore))"
  by code_simp

text \<open>
  C4, amended: when a create has succeeded for a payload with at least one author, a
  create with the same title and the same set of author names (in any order, with any
  other fields) on the resulting store fails with the duplicate-article error, and
  leaves the store as it was: the error is raised before any write.
\<close>

theorem create_twice_is_duplicate:
  assumes "articles_create today now formData d = (Inr r, d1)"
    and "f_title formData' = f_title formData"
    and "set (f_authors formData') = set (f_authors formData)"
    and "f_authors formData \<noteq> []"
  shows "articles_create today' now' formData' d1 = (Inl DuplicateArticle, d1)"
proof -
  have nodup: "duplicateCheck d (f_title formData) (f_authors formData) = None"
  proof (cases "duplicateCheck d (f_title formData) (f_authors formData)")
    case (Some x)
    with assms(1) show ?thesis by (simp add: articles_create_duplicate)
  qed simp
  let ?body = "createArticle today now (nextIdOf d) (makeFileName (nextIdOf d) (f_title formData)) formData (consumed d)"
  from assms(1) obtain v where body: "?body = (Inr v, d1)"
    unfolding articles_create_fresh[OF nodup] by (auto split: prod.splits sum.splits)
  from assms(4) obtain n where n: "n \<in> set (f_authors formData)" by (cases "f_authors formData") auto
  from createArticle_success(1)[OF body] obtain a where
    a: "a \<in> set (Article d1)" "row_id a = nextIdOf d" "row_title a = f_title formData" by blast
  from createArticle_success(2)[OF body] n have "linked d1 Author (nextIdOf d) n" by blast
  then obtain e where e: "e \<in> set (Entity d1 Author)" "snd e = n" "(nextIdOf d, fst e) \<in> set (ArticleEntity d1 Author)"
    unfolding linked_def by blast
  from e(1,2) have e': "(fst e, n) \<in> set (Entity d1 Author)" by (cases e) auto
  from n assms(3) have n': "n \<in> set (f_authors formData')" by simp
  from a(3) assms(2) have t: "row_title a = f_title formData'" by simp
  from e(3) a(2) have l: "(row_id a, fst e) \<in> set (ArticleEntity d1 Author)" by simp
  from duplicateCheck_SomeI[OF a(1) t l e' n'] show ?thesis
    using articles_create_duplicate by blast
qed

text \<open>Two authors, given in the other order the second time, with another abstract.\<close>

theorem create_twice_is_duplicate_witness:
  "articles_create today0 now0 (fooBar\<lparr>f_abstract := ''Another'', f_authors := [''B. Roe'', ''A. Doe'']\<rparr>)
     (snd (articles_create today0 now0 (fooBar\<lparr>f_authors := [''A. Doe'', ''B. Roe'']\<rparr>) freshStore))
   = (Inl DuplicateArticle,
      snd (articles_create today0 now0 (fooBar\<lparr>f_authors := [''A. Doe'', ''B. Roe'']\<rparr>) freshStore))"
proof -
  let ?first = "fooBar\<lparr>f_authors := [''A. Doe'', ''B. Roe'']\<rparr>"
  have "\<not> isl (fst (articles_create today0 now0 ?first freshStore))"
    by code_simp
  then obtain r where first:
    "articles_create today0 now0 ?first freshStore
       = (Inr r, snd (articles_create today0 now0 ?first freshStore))"
    by (rule succeeded)
  show ?thesis
    by (rule create_twice_is_duplicate[OF first]) (auto simp: fooBar_def)
qed

section \<open>Update of an unknown identifier\<close>

text \<open>
  C5, as stated: update of an identifier that denotes no article fails with a not-found
  outcome. Updating the identifier 0042 in a freshly initialised store with the empty
  payload does not fail: it returns \<^verbatim>\<open>null\<close>, what get returns for an unknown
  identifier.
\<close>

theorem update_of_unknown_id_returns_null_counterexample:
  "fst (articles_update now0 ''0042'' emptyPayload freshStore) = Inr None"
  by code_simp

text \<open>
  C5, amended: update of an identifier that denotes no article never reports a not-found
  error of its own. When every entity array of the payload is absent or empty it returns
  \<^verbatim>\<open>null\<close>; when some entity array names an entity it fails with the store's
  constraint error (the link would reference a missing article) and the transaction
  leaves the store as it was. In both cases no article row is added or changed.
\<close>

theorem update_of_unknown_id:
  assumes "articleId \<notin> row_id ` set (Article d)"
  shows "fst (articles_update now articleId formData d) =
           (if noNames formData then Inr None else Inl ConstraintError)
         \<and> Article (snd (articles_update now articleId formData d)) = Article d
         \<and> (noNames formData \<or> snd (articles_update now articleId formData d) = d)"
proof -
  from updateArticle_absent[OF assms, of now formData] obtain d' where
    body: "updateArticle now articleId formData d =
             ((if noNames formData then Inr () else Inl ConstraintError), d')"
    and rows: "Article d' = Article d" by blast
  from assms rows have "find (\<lambda>r. row_id r = articleId) (Article d') = None"
    by (auto simp: find_None_iff)
  then have "getArticleWithRelations d' articleId = None"
    by (simp add: getArticleWithRelations_def)
  with body rows show ?thesis
    by (simp add: articles_update_def andThen_def transaction_def)
qed

text \<open>Both cases in a freshly initialised store: no entity array, and one keyword.\<close>

theorem update_of_unknown_id_witness:
  "fst (articles_update now0 ''0042'' emptyPayload freshStore) = Inr None
   \<and> articles_update now0 ''0042'' (emptyPayload\<lparr>p_keywords := Some [''logic'']\<rparr>) freshStore
       = (Inl ConstraintError, freshStore)"
proof -
  have absent: "''0042'' \<notin> row_id ` set (Article freshStore)"
    by (simp add: freshStore_def)
  have "noNames emptyPayload"
    by (simp add: noNames_def emptyPayload_def)
  with update_of_unknown_id[OF absent, of now0 emptyPayload]
  have first: "fst (articles_update now0 ''0042'' emptyPayload freshStore) = Inr None"
    by simp
  have "\<not> noNames (emptyPayload\<lparr>p_keywords := Some [''logic'']\<rparr>)"
    by (simp add: noNames_def emptyPayload_def)
  with update_of_unknown_id[OF absent, of now0 "emptyPayload\<lparr>p_keywords := Some [''logic'']\<rparr>"]
  have "articles_update now0 ''0042'' (emptyPayload\<lparr>p_keywords := Some [''logic'']\<rparr>) freshStore
       = (Inl ConstraintError, freshStore)"
    by (simp add: prod_eq_iff)
  with first show ?thesis by simp
qed

section \<open>Update with the empty payload\<close>

text \<open>
  C7. For an article that exists, update with the empty payload returns the article as
  get returned it before the call, with only the last-update timestamp replaced by the
  reading of the clock; in the store, the rows of that identifier have their last-update
  column set to that reading, and nothing else changes: no other column, no other row,
  no entity, no link, neither the counter nor the settings.
\<close>

theorem update_empty_payload_touches_timestamp_only:
  assumes "getArticleWithRelations d articleId = Some article"
  shows "articles_update now articleId emptyPayload d =
     (Inr (Some (article\<lparr>art_updatedAt := orUndefined now\<rparr>)),
      d\<lparr>Article := map (\<lambda>r. if row_id r = articleId then r\<lparr>row_updatedAt := now\<rparr> else r) (Article d)\<rparr>)"
  using assms
  by (simp add: articles_update_def andThen_def transaction_def updateArticle_emptyPayload
      getArticleWithRelations_touch)

theorem update_empty_payload_touches_timestamp_only_witness:
  "getArticleWithRelations fooBarStore ''0001'' \<noteq> None
   \<and> fst (articles_update now1 ''0001'' emptyPayload fooBarStore) =
       Inr (map_option (\<lambda>a. a\<lparr>art_updatedAt := Some now1\<rparr>)
              (getArticleWithRelations fooBarStore ''0001''))"
proof -
  have present: "getArticleWithRelations fooBarStore ''0001'' \<noteq> None"
    by code_simp
  then obtain article where "getArticleWithRelations fooBarStore ''0001'' = Some article"
    by blast
  with update_empty_payload_touches_timestamp_only[OF this, of now1] present
  show ?thesis by (simp add: orUndefined_def now1_def)
qed

section \<open>Storing and locating documents\<close>

text \<open>
  C6, as stated: for every article identifier, title and byte sequence, storing a PDF and
  then locating it by the identifier returns a path whose contents are those bytes. The
  lookup computes the current-scheme name from the title in the store, not from the title
  the file was stored under: for the article 0001 titled Foo Bar, in the legacy-only
  layout, a PDF stored under the title Draft title is written next to the legacy file,
  and the lookup returns the legacy file, whose contents are the old ones.
\<close>

theorem store_then_locate_title_mismatch_counterexample:
  "fst (files_uploadPdf root0 fooBarStore ''0001'' ''Draft title'' tenBytes legacyFs)
     = Inr ''0001 - Draft title.pdf''
   \<and> findPdfFile root0 fooBarStore
        (snd (files_uploadPdf root0 fooBarStore ''0001'' ''Draft title'' tenBytes legacyFs)) ''0001''
     = Some [root0, ''pdfs'', ''0001.pdf'']
   \<and> files (snd (files_uploadPdf root0 fooBarStore ''0001'' ''Draft title'' tenBytes legacyFs))
        [root0, ''pdfs'', ''0001.pdf'']
     = Some [1, 2, 3]
   \<and> tenBytes \<noteq> [1, 2, 3]"
  by code_simp

text \<open>
  C6, amended: for every article that exists with a non-empty title, every title whose
  current-scheme name equals that of the stored title (the stored title itself in
  particular) and every byte sequence, a store of the PDF that succeeds followed by the
  lookup returns the path of the file just written, and the contents of that file are the
  bytes stored; whatever files were there before, under the legacy name or the current
  one.
\<close>

theorem store_then_locate:
  assumes "getArticleTitle d articleId = Some storedTitle"
    and "makeName articleId title = makeName articleId storedTitle"
    and "files_uploadPdf root d articleId title buffer f = (Inr name, f1)"
  shows "findPdfFile root d f1 articleId = Some (join (getPdfDir root) name)
       \<and> files f1 (join (getPdfDir root) name) = Some buffer"
proof -
  from files_uploadPdf_stored[OF assms(3)] have
    name: "name = makeName articleId title @ ''.pdf''"
    and stored: "files f1 (join (getPdfDir root) (makeName articleId title @ ''.pdf'')) = Some buffer"
    by simp_all
  from stored assms(2) have "existsSync f1 (join (getPdfDir root) (makeName articleId storedTitle @ ''.pdf''))"
    by (simp add: existsSync_def)
  with assms(1,2) name stored show ?thesis
    by (simp add: findPdfFile_candidates)
qed

text \<open>The legacy-only layout, and the layout left by an earlier store of the same title.\<close>

theorem store_then_locate_witness:
  "findPdfFile root0 fooBarStore
       (snd (files_uploadPdf root0 fooBarStore ''0001'' ''Foo Bar'' tenBytes legacyFs)) ''0001''
     = Some [root0, ''pdfs'', ''0001 - Foo Bar.pdf'']
   \<and> files (snd (files_uploadPdf root0 fooBarStore ''0001'' ''Foo Bar'' tenBytes legacyFs))
        [root0, ''pdfs'', ''0001 - Foo Bar.pdf'']
     = Some tenBytes
   \<and> findPdfFile root0 fooBarStore
       (snd (files_uploadPdf root0 fooBarStore ''0001'' ''Foo Bar'' tenBytes
          (snd (files_uploadPdf root0 fooBarStore ''0001'' ''Foo Bar'' [1, 2, 3] emptyFs)))) ''0001''
     = Some [root0, ''pdfs'', ''0001 - Foo Bar.pdf'']
   \<and> files (snd (files_uploadPdf root0 fooBarStore ''0001'' ''Foo Bar'' tenBytes
          (snd (files_uploadPdf root0 fooBarStore ''0001'' ''Foo Bar'' [1, 2, 3] emptyFs))))
        [root0, ''pdfs'', ''0001 - Foo Bar.pdf'']
     = Some tenBytes"
proof -
  let ?current = "snd (files_uploadPdf root0 fooBarStore ''0001'' ''Foo Bar'' [1, 2, 3] emptyFs)"
  have "\<not> isl (fst (files_uploadPdf root0 fooBarStore ''0001'' ''Foo Bar'' tenBytes legacyFs))"
    by code_simp
  then obtain n1 where legacy:
    "files_uploadPdf root0 fooBarStore ''0001'' ''Foo Bar'' tenBytes legacyFs
       = (Inr n1, snd (files_uploadPdf root0 fooBarStore ''0001'' ''Foo Bar'' tenBytes legacyFs))"
    by (rule succeeded)
  have "\<not> isl (fst (files_uploadPdf root0 fooBarStore ''0001'' ''Foo Bar'' tenBytes ?current))"
    by code_simp
  then obtain n2 where current:
    "files_uploadPdf root0 fooBarStore ''0001'' ''Foo Bar'' tenBytes ?current
       = (Inr n2, snd (files_uploadPdf root0 fooBarStore ''0001'' ''Foo Bar'' tenBytes ?current))"
    by (rule succeeded)
  from files_uploadPdf_stored(1)[OF legacy] have n1: "n1 = ''0001 - Foo Bar.pdf''"
    by (simp add: makeName_fooBar)
  from files_uploadPdf_stored(1)[OF current] have n2: "n2 = ''0001 - Foo Bar.pdf''"
    by (simp add: makeName_fooBar)
  from store_then_locate[OF fooBarStore_title refl legacy] store_then_locate[OF fooBarStore_title refl current]
  show ?thesis
    by (simp add: n1 n2 join_def getPdfDir_def)
qed

text \<open>
  C10. After a PDF has been stored under the current scheme with one title and the
  article's title has been updated, the lookup answers with one of two candidates only,
  the current-scheme name of the title now in the store and the legacy bare-identifier
  name, or with not-found; the file stored earlier is still on disk. When the new
  title's name differs from the old one's (and the old one's is not the bare identifier)
  and no file was there under either candidate name before the store, the lookup returns
  not-found and opening the PDF fails with not-found.
\<close>

theorem locate_consults_current_title_and_legacy_name:
  assumes "files_uploadPdf root d articleId oldTitle buffer f = (Inr name, f1)"
    and "articles_update now articleId formData d = (Inr result, d2)"
    and "p_title formData = Some newTitle"
  shows "findPdfFile root d2 f1 articleId \<in>
           {None,
            Some (join (getPdfDir root) (makeName articleId newTitle @ ''.pdf'')),
            Some (join (getPdfDir root) (articleId @ ''.pdf''))}
       \<and> files f1 (join (getPdfDir root) (makeName articleId oldTitle @ ''.pdf'')) = Some buffer
       \<and> (makeName articleId newTitle \<noteq> makeName articleId oldTitle
            \<and> makeName articleId oldTitle \<noteq> articleId
            \<and> \<not> existsSync f (join (getPdfDir root) (makeName articleId newTitle @ ''.pdf''))
            \<and> \<not> existsSync f (join (getPdfDir root) (articleId @ ''.pdf''))
          \<longrightarrow> findPdfFile root d2 f1 articleId = None
              \<and> files_openPdf root d2 f1 articleId = Inl NotFound)"
proof -
  let ?new = "join (getPdfDir root) (makeName articleId newTitle @ ''.pdf'')"
  let ?legacy = "join (getPdfDir root) (articleId @ ''.pdf'')"
  from articles_update_title[OF assms(2,3)]
  have title: "getArticleTitle d2 articleId = None \<or> getArticleTitle d2 articleId = Some newTitle" .
  then have candidates: "findPdfFile root d2 f1 articleId \<in> {None, Some ?new, Some ?legacy}"
    by (auto simp: findPdfFile_candidates split: if_splits)
  have stored: "files f1 (join (getPdfDir root) (makeName articleId oldTitle @ ''.pdf'')) = Some buffer"
    by (rule files_uploadPdf_stored(2)[OF assms(1)])
  have same: "sameElsewhere (makeName articleId oldTitle @ ''.pdf'') f f1"
    by (rule relates_result[OF files_uploadPdf_sameElsewhere assms(1)])
  have "findPdfFile root d2 f1 articleId = None \<and> files_openPdf root d2 f1 articleId = Inl NotFound"
    if differ: "makeName articleId newTitle \<noteq> makeName articleId oldTitle"
      and bare: "makeName articleId oldTitle \<noteq> articleId"
      and nonew: "\<not> existsSync f ?new" and nolegacy: "\<not> existsSync f ?legacy"
  proof -
    from same differ nonew have "\<not> existsSync f1 ?new"
      by (simp add: sameElsewhere_def join_def getPdfDir_def)
    moreover from same bare nolegacy have "\<not> existsSync f1 ?legacy"
      by (auto simp: sameElsewhere_def join_def getPdfDir_def)
    ultimately have "findPdfFile root d2 f1 articleId = None"
      using title by (auto simp: findPdfFile_candidates)
    then show ?thesis by (simp add: files_openPdf_def)
  qed
  with candidates stored show ?thesis by blast
qed

theorem locate_consults_current_title_and_legacy_name_witness:
  "findPdfFile root0
       (snd (articles_update now1 ''0001'' (emptyPayload\<lparr>p_title := Some ''Foo Baz''\<rparr>) fooBarStore))
       (snd (files_uploadPdf root0 fooBarStore ''0001'' ''Foo Bar'' tenBytes emptyFs)) ''0001''
     = None
   \<and> files (snd (files_uploadPdf root0 fooBarStore ''0001'' ''Foo Bar'' tenBytes emptyFs))
        [root0, ''pdfs'', ''0001 - Foo Bar.pdf'']
     = Some tenBytes"
proof -
  let ?payload = "emptyPayload\<lparr>p_title := Some ''Foo Baz''\<rparr>"
  have "\<not> isl (fst (files_uploadPdf root0 fooBarStore ''0001'' ''Foo Bar'' tenBytes emptyFs))"
    by code_simp
  then obtain name where stored:
    "files_uploadPdf root0 fooBarStore ''0001'' ''Foo Bar'' tenBytes emptyFs
       = (Inr name, snd (files_uploadPdf root0 fooBarStore ''0001'' ''Foo Bar'' tenBytes emptyFs))"
    by (rule succeeded)
  have "\<not> isl (fst (articles_update now1 ''0001'' ?payload fooBarStore))"
    by code_simp
  then obtain result where updated:
    "articles_update now1 ''0001'' ?payload fooBarStore
       = (Inr result, snd (articles_update now1 ''0001'' ?payload fooBarStore))"
    by (rule succeeded)
  have title: "p_title ?payload = Some ''Foo Baz''"
    by simp
  have differ: "makeName ''0001'' ''Foo Baz'' \<noteq> makeName ''0001'' ''Foo Bar''"
    by code_simp
  have bare: "makeName ''0001'' ''Foo Bar'' \<noteq> ''0001''"
    by code_simp
  have empty: "\<not> existsSync emptyFs p" for p
    by (simp add: existsSync_def emptyFs_def)
  from locate_consults_current_title_and_legacy_name[OF stored updated title] differ bare empty
  show ?thesis
    by (simp add: makeName_fooBar join_def getPdfDir_def)
qed

section \<open>The external mirror\<close>

text \<open>
  C8. When the primary write of a PDF store has succeeded and the copy to the external
  mirror throws (which it can only do when mirroring is enabled), the store returns the
  file name as on success, the files of the file system are exactly those after the
  primary write, and the primary file holds the bytes stored.
\<close>

theorem mirror_failure_is_swallowed:
  assumes "andThen (\<lambda>f. if \<not> existsSync f (getPdfDir root) then mkdirSync (getPdfDir root) f else (Inr (), f))
             (\<lambda>_. writeFileSync (join (getPdfDir root) (makeName articleId articleTitle @ ''.pdf'')) buffer) f
           = (Inr (), f1)"
    and "copyToExternal d (join (getPdfDir root) (makeName articleId articleTitle @ ''.pdf'')) ''pdfs''
           (makeName articleId articleTitle @ ''.pdf'') f1 = (Inl e, f2)"
  shows "files_uploadPdf root d articleId articleTitle buffer f
           = (Inr (makeName articleId articleTitle @ ''.pdf''), f2)
       \<and> files f2 = files f1
       \<and> files f2 (join (getPdfDir root) (makeName articleId articleTitle @ ''.pdf'')) = Some buffer"
proof -
  let ?name = "makeName articleId articleTitle @ ''.pdf''"
  let ?path = "join (getPdfDir root) ?name"
  let ?ensure = "\<lambda>f. if \<not> existsSync f (getPdfDir root) then mkdirSync (getPdfDir root) f else (Inr (), f)"
  from andThen_InrD[OF assms(1)] obtain u0 f0 where
    e: "?ensure f = (Inr u0, f0)" and w: "writeFileSync ?path buffer f0 = (Inr (), f1)" by blast
  from assms(2) have c: "copyToExternalIfEnabled d ?path ''pdfs'' ?name f1 = (Inr (), f2)"
    by (simp add: copyToExternalIfEnabled_def)
  have run: "files_uploadPdf root d articleId articleTitle buffer f = (Inr ?name, f2)"
    unfolding files_uploadPdf_def Let_def
    by (simp add: andThen_def e w c returns_def)
  from w have written: "files f1 ?path = Some buffer"
    by (auto simp: writeFileSync_def split: if_splits)
  have "files f2 = files f1"
  proof -
    have mk: "files (snd (mkdirSync q g)) = files g" for q g
      by (simp add: mkdirSync_def)
    have cp: "copyFileSync src q g = (Inl e', g') \<Longrightarrow> g' = g" for src q g e' g'
      by (auto simp: copyFileSync_def writeFileSync_def split: option.splits if_splits)
    from assms(2) show ?thesis
      by (auto simp: copyToExternal_def Let_def andThen_def split: if_splits prod.splits sum.splits
          dest!: cp)
         (metis mk snd_conv)+
  qed
  with run written show ?thesis by simp
qed

text \<open>Mirroring is enabled and the mirror directory cannot be created.\<close>

theorem mirror_failure_is_swallowed_witness:
  "fst (files_uploadPdf root0 mirrorStore ''0001'' ''Foo Bar'' tenBytes brokenMirrorFs)
     = Inr ''0001 - Foo Bar.pdf''
   \<and> files (snd (files_uploadPdf root0 mirrorStore ''0001'' ''Foo Bar'' tenBytes brokenMirrorFs))
        [root0, ''pdfs'', ''0001 - Foo Bar.pdf'']
     = Some tenBytes"
proof -
  let ?path = "join (getPdfDir root0) (makeName ''0001'' ''Foo Bar'' @ ''.pdf'')"
  let ?primary = "andThen
      (\<lambda>f. if \<not> existsSync f (getPdfDir root0) then mkdirSync (getPdfDir root0) f else (Inr (), f))
      (\<lambda>_. writeFileSync ?path tenBytes) brokenMirrorFs"
  let ?mirror = "copyToExternal mirrorStore ?path ''pdfs'' (makeName ''0001'' ''Foo Bar'' @ ''.pdf'') (snd ?primary)"
  have "fst ?primary = Inr ()"
    by code_simp
  then have primary: "?primary = (Inr (), snd ?primary)"
    by (simp add: prod_eq_iff)
  have "fst ?mirror = Inl IOError"
    by code_simp
  then have mirror: "?mirror = (Inl IOError, snd ?mirror)"
    by (simp add: prod_eq_iff)
  have run: "files_uploadPdf root0 mirrorStore ''0001'' ''Foo Bar'' tenBytes brokenMirrorFs
               = (Inr (makeName ''0001'' ''Foo Bar'' @ ''.pdf''), snd ?mirror)"
    and kept: "files (snd ?mirror) ?path = Some tenBytes"
    using mirror_failure_is_swallowed[OF primary mirror] by blast+
  show ?thesis
    unfolding run using kept
    by (simp add: makeName_fooBar join_def getPdfDir_def)
qed

section \<open>The files of a deleted article\<close>

text \<open>
  C3. The specification's scenario, with mirroring enabled: the article 0001 titled
  Foo Bar exists, a PDF of ten bytes is stored for it (under the current scheme, in the
  primary and in the mirror directory), and the article is deleted. The delete succeeds
  and the article is gone, but both PDF files are still there: the handler removes only
  the files named by the bare identifier.
\<close>

theorem delete_leaves_current_scheme_files:
  "fst (articles_delete root0 ''0001''
         (mirrorStore, snd (files_uploadPdf root0 mirrorStore ''0001'' ''Foo Bar'' tenBytes emptyFs)))
     = Inr ()
   \<and> getArticleWithRelations
        (fst (snd (articles_delete root0 ''0001''
           (mirrorStore, snd (files_uploadPdf root0 mirrorStore ''0001'' ''Foo Bar'' tenBytes emptyFs)))))
        ''0001''
     = None
   \<and> files (snd (snd (articles_delete root0 ''0001''
           (mirrorStore, snd (files_uploadPdf root0 mirrorStore ''0001'' ''Foo Bar'' tenBytes emptyFs)))))
        [root0, ''pdfs'', ''0001 - Foo Bar.pdf'']
     = Some tenBytes
   \<and> files (snd (snd (articles_delete root0 ''0001''
           (mirrorStore, snd (files_uploadPdf root0 mirrorStore ''0001'' ''Foo Bar'' tenBytes emptyFs)))))
        [''cloud'', ''pdfs'', ''0001 - Foo Bar.pdf'']
     = Some tenBytes"
  by code_simp

end
